theory Spec2Isabelle
  imports Main "HOL-Library.Char_ord" "HOL-Library.List_Lexorder"
begin

section \<open>Data model of the flywheel\<close>

text \<open>
  A \<open>time.Time\<close> is an instant, kept as a number of nanoseconds counted from the zero
  \<open>time.Time\<close>; a \<open>time.Duration\<close> is a number of nanoseconds. Every instant the
  program compares comes from \<open>time.Now()\<close>, possibly moved by \<open>Add\<close>, so
  \<open>Before\<close> and \<open>After\<close> are the strict order of instants and \<open>Add\<close> is addition.
  A Go \<open>error\<close> is kept by its message, and a nil error is \<open>None\<close>.
\<close>

type_synonym time = int
type_synonym duration = int
type_synonym error = string

text \<open>
  Modelled from the spec: the five State constants, which the source uses and declares
  elsewhere. The spec lists them in this order and names \<open>STOPPED\<close> as the state of a
  fresh process, which \<open>New\<close> leaves at the zero value of \<open>int\<close>.
\<close>

definition STOPPED :: int where "STOPPED = 0"
definition STARTING :: int where "STARTING = 1"
definition STARTED :: int where "STARTED = 2"
definition STOPPING :: int where "STOPPING = 3"
definition UNHEALTHY :: int where "UNHEALTHY = 4"

text \<open>
  Modelled from the spec: \<open>StatusString\<close>, the stringify helper of the State constants,
  declared elsewhere. The spec gives the five names; the name of any other number is
  left empty here.
\<close>

definition StatusString :: "int \<Rightarrow> string" where
  "StatusString s =
     (if s = STOPPED then ''STOPPED''
      else if s = STARTING then ''STARTING''
      else if s = STARTED then ''STARTED''
      else if s = STOPPING then ''STOPPING''
      else if s = UNHEALTHY then ''UNHEALTHY''
      else [])"

text \<open>The result of a ping request (\<open>type Pong struct\<close>).\<close>

record Pong =
  Status :: int
  StatusName :: string
  Err :: "error option"
  LastStarted :: time
  LastStopped :: time
  StopAt :: time

text \<open>
  A channel of Pong values: what it buffers, how much it can buffer, and whether it has
  been closed.
\<close>

record chan =
  buf :: "Pong list"
  capacity :: nat
  is_closed :: bool

record Ping =
  replyTo :: chan
  setTimeout :: duration
  requestStart :: bool
  requestStop :: bool
  noop :: bool

text \<open>
  The configuration, declared elsewhere; these are the fields the source reads. The
  \<open>Terminate\<close> map of scaling groups is kept as the list of its entries in the order
  the \<open>range\<close> loop visits them.
\<close>

record AutoScalingConfig =
  as_Terminate :: "(string \<times> int) list"
  as_Stop :: "string list"

record Config =
  Endpoint :: string
  Vhosts :: "string \<rightharpoonup> string"
  HcInterval :: duration
  IdleTimeout :: duration
  Instances :: "string list"
  AutoScaling :: AutoScalingConfig

text \<open>
  Modelled from the spec: \<open>AwsInstances\<close>, a method of the configuration declared
  elsewhere; it hands the configured raw instance IDs to the resource client.
\<close>

definition AwsInstances :: "Config \<Rightarrow> string list" where
  "AwsInstances cfg = Instances cfg"

text \<open>
  The state held by the flywheel goroutine. The two service clients are the
  \<open>world\<close> below; the \<open>pings\<close> channel is the stream of events given to
  \<open>Spin_step\<close>; the field \<open>running\<close>, which no function here reads or writes, is
  left out.
\<close>

record Flywheel =
  config :: Config
  status :: int
  ready :: bool
  stopAt :: time
  lastStarted :: time
  lastStopped :: time
  hcInterval :: duration
  idleTimeout :: duration

section \<open>The world outside: clock and resource-management API\<close>

text \<open>The calls the source makes on the EC2 and autoscaling clients.\<close>

datatype api_call =
    EC2_StartInstances "string list"
  | EC2_StopInstances "string list"
  | AS_UpdateAutoScalingGroup string int int
  | AS_DescribeAutoScalingGroups "string list"
  | AS_SuspendProcesses string "string list"

text \<open>A scaling group as \<open>DescribeAutoScalingGroups\<close> reports it.\<close>

record asg =
  AutoScalingGroupName :: string
  InstanceIds :: "string list"

text \<open>
  \<open>clock w n\<close> is what the \<open>n\<close>-th call of \<open>time.Now()\<close> returns and \<open>reads w\<close> counts
  the calls made. \<open>respond w h c\<close> is the pair \<open>(resp, err)\<close> the API returns for the
  call \<open>c\<close> made after the calls \<open>h\<close>; \<open>calls w\<close> lists the calls made so far. Log
  output is not kept.
\<close>

record world =
  clock :: "nat \<Rightarrow> time"
  reads :: nat
  respond :: "api_call list \<Rightarrow> api_call \<Rightarrow> asg list \<times> error option"
  calls :: "api_call list"

definition time_Now :: "world \<Rightarrow> time" where
  "time_Now w = clock w (reads w)"

definition ticked :: "world \<Rightarrow> world" where
  "ticked w = w\<lparr>reads := Suc (reads w)\<rparr>"

definition call_resp :: "api_call \<Rightarrow> world \<Rightarrow> asg list" where
  "call_resp c w = fst (respond w (calls w) c)"

definition call_err :: "api_call \<Rightarrow> world \<Rightarrow> error option" where
  "call_err c w = snd (respond w (calls w) c)"

definition called :: "api_call \<Rightarrow> world \<Rightarrow> world" where
  "called c w = w\<lparr>calls := calls w @ [c]\<rparr>"

text \<open>
  A function of the source returns, panics (an index out of range, a send on a closed
  channel), or waits forever on a channel nobody reads.
\<close>

datatype 'a outcome = Done 'a | Panic | Blocked

fun and_then :: "'a outcome \<Rightarrow> ('a \<Rightarrow> 'b outcome) \<Rightarrow> 'b outcome" where
  "and_then (Done x) f = f x"
| "and_then Panic f = Panic"
| "and_then Blocked f = Blocked"

section \<open>Lifecycle orchestration\<close>

definition startInstances :: "Config \<Rightarrow> world \<Rightarrow> (error option \<times> world) outcome" where
  "startInstances cfg w =
     (if length (Instances cfg) = 0 then Done (None, w)
      else Done (call_err (EC2_StartInstances (AwsInstances cfg)) w,
                 called (EC2_StartInstances (AwsInstances cfg)) w))"

fun unterminate_groups :: "(string \<times> int) list \<Rightarrow> world \<Rightarrow> (error option \<times> world) outcome" where
  "unterminate_groups [] w = Done (None, w)"
| "unterminate_groups ((groupName, gsize) # rest) w =
     (case call_err (AS_UpdateAutoScalingGroup groupName gsize gsize) w of
        Some e \<Rightarrow> Done (Some e, called (AS_UpdateAutoScalingGroup groupName gsize gsize) w)
      | None \<Rightarrow> unterminate_groups rest (called (AS_UpdateAutoScalingGroup groupName gsize gsize) w))"

definition unterminateAutoScaling :: "Config \<Rightarrow> world \<Rightarrow> (error option \<times> world) outcome" where
  "unterminateAutoScaling cfg w = unterminate_groups (as_Terminate (AutoScaling cfg)) w"

fun start_groups :: "string list \<Rightarrow> world \<Rightarrow> (error option \<times> world) outcome" where
  "start_groups [] w = Done (None, w)"
| "start_groups (groupName # rest) w =
     (case call_err (AS_DescribeAutoScalingGroups [groupName]) w of
        Some e \<Rightarrow> Done (Some e, called (AS_DescribeAutoScalingGroups [groupName]) w)
      | None \<Rightarrow>
          (case call_resp (AS_DescribeAutoScalingGroups [groupName]) w of
             [] \<Rightarrow> Panic
           | grp # _ \<Rightarrow>
               (case call_err (EC2_StartInstances (InstanceIds grp))
                       (called (AS_DescribeAutoScalingGroups [groupName]) w) of
                  Some e \<Rightarrow>
                    Done (Some e, called (EC2_StartInstances (InstanceIds grp))
                                    (called (AS_DescribeAutoScalingGroups [groupName]) w))
                | None \<Rightarrow>
                    start_groups rest
                      (called (EC2_StartInstances (InstanceIds grp))
                         (called (AS_DescribeAutoScalingGroups [groupName]) w)))))"

definition startAutoScaling :: "Config \<Rightarrow> world \<Rightarrow> (error option \<times> world) outcome" where
  "startAutoScaling cfg w = start_groups (as_Stop (AutoScaling cfg)) w"

text \<open>
  \<open>Start\<close> returns the error of the first step that fails, or nil together with the
  fields it then sets.
\<close>

definition Start :: "Flywheel \<Rightarrow> world \<Rightarrow> (error option \<times> Flywheel \<times> world) outcome" where
  "Start fw w =
     and_then (startInstances (config fw) (ticked w)) (\<lambda>(err1, w1).
     and_then (if err1 = None then unterminateAutoScaling (config fw) w1 else Done (err1, w1)) (\<lambda>(err2, w2).
     and_then (if err2 = None then startAutoScaling (config fw) w2 else Done (err2, w2)) (\<lambda>(err3, w3).
       (case err3 of
          Some e \<Rightarrow> Done (Some e, fw\<lparr>lastStarted := time_Now w\<rparr>, w3)
        | None \<Rightarrow>
            Done (None,
                  fw\<lparr>lastStarted := time_Now w, ready := False,
                     stopAt := time_Now w3 + idleTimeout fw, status := STARTING\<rparr>,
                  ticked w3)))))"

definition stopInstances :: "Config \<Rightarrow> world \<Rightarrow> (error option \<times> world) outcome" where
  "stopInstances cfg w =
     (if length (Instances cfg) = 0 then Done (None, w)
      else Done (call_err (EC2_StopInstances (AwsInstances cfg)) w,
                 called (EC2_StopInstances (AwsInstances cfg)) w))"

fun stop_groups :: "string list \<Rightarrow> world \<Rightarrow> (error option \<times> world) outcome" where
  "stop_groups [] w = Done (None, w)"
| "stop_groups (groupName # rest) w =
     (case call_err (AS_DescribeAutoScalingGroups [groupName]) w of
        Some e \<Rightarrow> Done (Some e, called (AS_DescribeAutoScalingGroups [groupName]) w)
      | None \<Rightarrow>
          (case call_resp (AS_DescribeAutoScalingGroups [groupName]) w of
             [] \<Rightarrow> Panic
           | grp # _ \<Rightarrow>
               (case call_err (AS_SuspendProcesses (AutoScalingGroupName grp) [''ReplaceUnhealthy''])
                       (called (AS_DescribeAutoScalingGroups [groupName]) w) of
                  Some e \<Rightarrow>
                    Done (Some e,
                          called (AS_SuspendProcesses (AutoScalingGroupName grp) [''ReplaceUnhealthy''])
                            (called (AS_DescribeAutoScalingGroups [groupName]) w))
                | None \<Rightarrow>
                    (case call_err (EC2_StopInstances (InstanceIds grp))
                            (called (AS_SuspendProcesses (AutoScalingGroupName grp) [''ReplaceUnhealthy''])
                               (called (AS_DescribeAutoScalingGroups [groupName]) w)) of
                       Some e \<Rightarrow>
                         Done (Some e,
                               called (EC2_StopInstances (InstanceIds grp))
                                 (called (AS_SuspendProcesses (AutoScalingGroupName grp) [''ReplaceUnhealthy''])
                                    (called (AS_DescribeAutoScalingGroups [groupName]) w)))
                     | None \<Rightarrow>
                         stop_groups rest
                           (called (EC2_StopInstances (InstanceIds grp))
                              (called (AS_SuspendProcesses (AutoScalingGroupName grp) [''ReplaceUnhealthy''])
                                 (called (AS_DescribeAutoScalingGroups [groupName]) w)))))))"

definition stopAutoScaling :: "Config \<Rightarrow> world \<Rightarrow> (error option \<times> world) outcome" where
  "stopAutoScaling cfg w = stop_groups (as_Stop (AutoScaling cfg)) w"

fun terminate_groups :: "(string \<times> int) list \<Rightarrow> world \<Rightarrow> (error option \<times> world) outcome" where
  "terminate_groups [] w = Done (None, w)"
| "terminate_groups ((groupName, gsize) # rest) w =
     (case call_err (AS_UpdateAutoScalingGroup groupName 0 0) w of
        Some e \<Rightarrow> Done (Some e, called (AS_UpdateAutoScalingGroup groupName 0 0) w)
      | None \<Rightarrow> terminate_groups rest (called (AS_UpdateAutoScalingGroup groupName 0 0) w))"

definition terminateAutoScaling :: "Config \<Rightarrow> world \<Rightarrow> (error option \<times> world) outcome" where
  "terminateAutoScaling cfg w = terminate_groups (as_Terminate (AutoScaling cfg)) w"

definition Stop :: "Flywheel \<Rightarrow> world \<Rightarrow> (error option \<times> Flywheel \<times> world) outcome" where
  "Stop fw w =
     and_then (stopInstances (config fw) (ticked w)) (\<lambda>(err1, w1).
     and_then (if err1 = None then terminateAutoScaling (config fw) w1 else Done (err1, w1)) (\<lambda>(err2, w2).
     and_then (if err2 = None then stopAutoScaling (config fw) w2 else Done (err2, w2)) (\<lambda>(err3, w3).
       (case err3 of
          Some e \<Rightarrow> Done (Some e, fw\<lparr>lastStopped := time_Now w\<rparr>, w3)
        | None \<Rightarrow>
            Done (None,
                  fw\<lparr>lastStopped := time_Now w, ready := False, status := STOPPING,
                     stopAt := time_Now w\<rparr>,
                  w3)))))"

section \<open>The authority loop\<close>

definition make_chan :: "nat \<Rightarrow> chan" where
  "make_chan n = \<lparr>buf = [], capacity = n, is_closed = False\<rparr>"

text \<open>
  A send on a closed channel panics; with room in the buffer it returns at once;
  otherwise the sender waits for a receiver, which is not part of this model.
\<close>

definition chan_send :: "Pong \<Rightarrow> chan \<Rightarrow> chan outcome" where
  "chan_send p c =
     (if is_closed c then Panic
      else if length (buf c) < capacity c then Done (c\<lparr>buf := buf c @ [p]\<rparr>)
      else Blocked)"

definition chan_close :: "chan \<Rightarrow> chan outcome" where
  "chan_close c = (if is_closed c then Panic else Done (c\<lparr>is_closed := True\<rparr>))"

definition zero_Pong :: Pong where
  "zero_Pong = \<lparr>Status = 0, StatusName = [], Err = None,
                 LastStarted = 0, LastStopped = 0, StopAt = 0\<rparr>"

text \<open>A receive takes the oldest buffered value; on a closed, empty channel it yields the zero value.\<close>

definition chan_recv :: "chan \<Rightarrow> (Pong \<times> chan) outcome" where
  "chan_recv c =
     (case buf c of
        p # ps \<Rightarrow> Done (p, c\<lparr>buf := ps\<rparr>)
      | [] \<Rightarrow> (if is_closed c then Done (zero_Pong, c) else Blocked))"

definition New :: "Config \<Rightarrow> world \<Rightarrow> Flywheel \<times> world" where
  "New cfg w =
     (\<lparr>config = cfg, status = 0, ready = False, stopAt = time_Now w,
       lastStarted = 0, lastStopped = 0,
       hcInterval = HcInterval cfg, idleTimeout = IdleTimeout cfg\<rparr>,
      ticked w)"

text \<open>
  \<open>RecvPing\<close> returns the reply channel as it leaves it (the Pong sent, then the
  deferred close), the flywheel and the world.
\<close>

definition RecvPing :: "Ping \<Rightarrow> Flywheel \<Rightarrow> world \<Rightarrow> (chan \<times> Flywheel \<times> world) outcome" where
  "RecvPing ping fw w =
     and_then
       (if status fw = STOPPED then
          (if requestStart ping then Start fw w else Done (None, fw, w))
        else if status fw = STARTED then
          (if noop ping then Done (None, fw, w)
           else if requestStop ping then Stop fw w
           else if setTimeout ping \<noteq> 0 then
             Done (None, fw\<lparr>stopAt := time_Now w + setTimeout ping\<rparr>, ticked w)
           else
             Done (None, fw\<lparr>stopAt := time_Now w + idleTimeout fw\<rparr>, ticked w))
        else Done (None, fw, w))
       (\<lambda>(err, fw', w').
          and_then
            (chan_send
               \<lparr>Status = status fw', StatusName = StatusString (status fw'), Err = err,
                LastStarted = lastStarted fw', LastStopped = lastStopped fw',
                StopAt = stopAt fw'\<rparr>
               (replyTo ping))
            (\<lambda>ch. and_then (chan_close ch) (\<lambda>ch'. Done (ch', fw', w'))))"

definition Poll :: "Flywheel \<Rightarrow> world \<Rightarrow> (Flywheel \<times> world) outcome" where
  "Poll fw w =
     (if status fw = STARTED then
        (if time_Now w > stopAt fw then
           and_then (Stop fw (ticked w)) (\<lambda>(err, fw', w'). Done (fw'\<lparr>status := STOPPING\<rparr>, w'))
         else Done (fw, ticked w))
      else if status fw = STOPPING then
        (if ready fw then Done (fw\<lparr>status := STOPPED\<rparr>, w) else Done (fw, w))
      else if status fw = STARTING then
        (if ready fw then
           Done (fw\<lparr>status := STARTED, stopAt := time_Now w + idleTimeout fw\<rparr>, ticked w)
         else Done (fw, w))
      else Done (fw, w))"

text \<open>
  The \<open>hchan\<close> case of the \<open>select\<close> in \<open>Spin\<close>: a health notification. \<open>time.Now()\<close>
  is read only when the notified status is \<open>STARTED\<close>, and a second time when the
  deadline lies before the first reading.
\<close>

definition Spin_health :: "int \<Rightarrow> Flywheel \<Rightarrow> world \<Rightarrow> Flywheel \<times> world" where
  "Spin_health s fw w =
     (if status fw \<noteq> s then
        (if s = STARTED then
           (if stopAt fw < time_Now w then
              (fw\<lparr>stopAt := time_Now (ticked w) + idleTimeout fw, status := s\<rparr>,
               ticked (ticked w))
            else (fw\<lparr>status := s\<rparr>, ticked w))
         else (fw\<lparr>status := s\<rparr>, w))
      else (fw, w))"

text \<open>One turn of the loop of \<open>Spin\<close>: whichever case of the \<open>select\<close> is ready.\<close>

datatype event = EvPing Ping | EvTick | EvHealth int

fun Spin_step :: "event \<Rightarrow> Flywheel \<Rightarrow> world \<Rightarrow> (Flywheel \<times> world) outcome" where
  "Spin_step (EvPing ping) fw w =
     and_then (RecvPing ping fw w) (\<lambda>(ch, fw', w'). Done (fw', w'))"
| "Spin_step EvTick fw w = Poll fw w"
| "Spin_step (EvHealth s) fw w = Done (Spin_health s fw w)"

section \<open>Status snapshot\<close>

text \<open>A JSON text, by its structure.\<close>

datatype json =
    JNull
  | JBool bool
  | JNumber int
  | JString string
  | JArray "json list"
  | JObject "(string \<times> json) list"

text \<open>
  How \<open>time.Time\<close> goes to and from a JSON string is the work of the time package:
  \<open>time_MarshalJSON\<close> fails for an instant whose year is outside 0..9999,
  \<open>time_UnmarshalJSON\<close> fails for a string that is not an RFC 3339 timestamp.
\<close>

record time_codec =
  time_MarshalJSON :: "time \<Rightarrow> string option"
  time_UnmarshalJSON :: "string \<Rightarrow> time option"

text \<open>
  \<open>json.Marshal\<close> of a Pong follows the struct tags: \<open>Status\<close> is tagged \<open>"-"\<close> and
  never written, \<open>Err\<close> is left out when nil. An error value that is present has no
  exported field and is written as an empty object.
\<close>

definition json_Marshal :: "time_codec \<Rightarrow> Pong \<Rightarrow> json option" where
  "json_Marshal codec p =
     (case time_MarshalJSON codec (LastStarted p) of None \<Rightarrow> None | Some a \<Rightarrow>
      (case time_MarshalJSON codec (LastStopped p) of None \<Rightarrow> None | Some b \<Rightarrow>
       (case time_MarshalJSON codec (StopAt p) of None \<Rightarrow> None | Some c \<Rightarrow>
          Some (JObject
            ([(''status'', JString (StatusName p))]
             @ (case Err p of None \<Rightarrow> [] | Some e \<Rightarrow> [(''error'', JObject [])])
             @ [(''last-started'', JString a), (''last-stopped'', JString b),
                (''stop-due-at'', JString c)])))))"

text \<open>
  \<open>json.Unmarshal\<close> matches a key with a field's tag name under simple case folding.
  The tag names are ASCII, and the characters that fold to an ASCII letter are the
  letter in its other case, the long s (U+017F, the bytes C5 BF) for \<open>s\<close> and the Kelvin
  sign (U+212A, the bytes E2 84 AA) for \<open>k\<close>. \<open>fold_key\<close> brings a key, a string of
  UTF-8 bytes, to the lower-case ASCII form of what it folds to.
\<close>

definition fold_byte :: "char \<Rightarrow> char" where
  "fold_byte c =
     (if CHR ''A'' \<le> c \<and> c \<le> CHR ''Z'' then char_of (of_char c + (32::nat)) else c)"

fun fold_key :: "string \<Rightarrow> string" where
  "fold_key [] = []"
| "fold_key (c # cs) =
     (case cs of
        [] \<Rightarrow> [fold_byte c]
      | d # rest \<Rightarrow>
          (if c = CHR 0xC5 \<and> d = CHR 0xBF then CHR ''s'' # fold_key rest
           else
             (case rest of
                [] \<Rightarrow> fold_byte c # fold_key cs
              | e # rest' \<Rightarrow>
                  (if c = CHR 0xE2 \<and> d = CHR 0x84 \<and> e = CHR 0xAA then CHR ''k'' # fold_key rest'
                   else fold_byte c # fold_key cs))))"

declare fold_key.simps [simp del]

definition decode_time :: "time_codec \<Rightarrow> json \<Rightarrow> time \<Rightarrow> error + time" where
  "decode_time codec v old =
     (case v of
        JNull \<Rightarrow> Inr old
      | JString s \<Rightarrow>
          (case time_UnmarshalJSON codec s of
             Some t \<Rightarrow> Inr t
           | None \<Rightarrow> Inl ''cannot parse as time'')
      | _ \<Rightarrow> Inl ''Time.UnmarshalJSON: input is not a JSON string'')"

definition decode_field :: "time_codec \<Rightarrow> string \<Rightarrow> json \<Rightarrow> Pong \<Rightarrow> error + Pong" where
  "decode_field codec k v p =
     (if fold_key k = ''status'' then
        (case v of
           JNull \<Rightarrow> Inr p
         | JString s \<Rightarrow> Inr (p\<lparr>StatusName := s\<rparr>)
         | _ \<Rightarrow> Inl ''cannot unmarshal into Go struct field Pong.status of type string'')
      else if fold_key k = ''error'' then
        (case v of
           JNull \<Rightarrow> Inr (p\<lparr>Err := None\<rparr>)
         | _ \<Rightarrow> Inl ''cannot unmarshal into Go struct field Pong.error of type error'')
      else if fold_key k = ''last-started'' then
        (case decode_time codec v (LastStarted p) of
           Inl e \<Rightarrow> Inl e | Inr t \<Rightarrow> Inr (p\<lparr>LastStarted := t\<rparr>))
      else if fold_key k = ''last-stopped'' then
        (case decode_time codec v (LastStopped p) of
           Inl e \<Rightarrow> Inl e | Inr t \<Rightarrow> Inr (p\<lparr>LastStopped := t\<rparr>))
      else if fold_key k = ''stop-due-at'' then
        (case decode_time codec v (StopAt p) of
           Inl e \<Rightarrow> Inl e | Inr t \<Rightarrow> Inr (p\<lparr>StopAt := t\<rparr>))
      else Inr p)"

fun decode_fields :: "time_codec \<Rightarrow> (string \<times> json) list \<Rightarrow> Pong \<Rightarrow> error + Pong" where
  "decode_fields codec [] p = Inr p"
| "decode_fields codec ((k, v) # kvs) p =
     (case decode_field codec k v p of
        Inl e \<Rightarrow> Inl e
      | Inr p' \<Rightarrow> decode_fields codec kvs p')"

text \<open>
  \<open>json.Unmarshal\<close> into \<open>var status Pong\<close>: the fields no key names keep their zero
  value, and no key names \<open>Status\<close>. Where a value has the wrong type the decoder
  goes on and reports the error at the end; here it stops, since \<open>ReadStatusFile\<close>
  uses nothing of a failed decoding.
\<close>

definition json_Unmarshal :: "time_codec \<Rightarrow> json \<Rightarrow> error + Pong" where
  "json_Unmarshal codec j =
     (case j of
        JNull \<Rightarrow> Inr zero_Pong
      | JObject kvs \<Rightarrow> decode_fields codec kvs zero_Pong
      | _ \<Rightarrow> Inl ''cannot unmarshal into Go value of type Pong'')"

text \<open>
  The bytes of a file: a JSON text, or anything else. \<open>locked\<close> names the paths that
  cannot be opened, \<open>faulty\<close> those on which \<open>Stat\<close>, \<open>ReadFull\<close> and \<open>Write\<close> fail.
\<close>

datatype bytes = JsonText json | OtherBytes string

record filesystem =
  files :: "string \<rightharpoonup> bytes"
  locked :: "string \<Rightarrow> bool"
  faulty :: "string \<Rightarrow> bool"

text \<open>
  \<open>OpenFile\<close> with \<open>O_CREATE|O_TRUNC\<close> leaves an empty file, which stays when
  \<open>Marshal\<close> or \<open>Write\<close> fails.
\<close>

definition WriteStatusFile :: "time_codec \<Rightarrow> Flywheel \<Rightarrow> string \<Rightarrow> filesystem \<Rightarrow> filesystem" where
  "WriteStatusFile codec fw statusFile fs =
     (if locked fs statusFile then fs
      else
        (case json_Marshal codec
                (zero_Pong\<lparr>Status := status fw, StatusName := StatusString (status fw),
                            LastStarted := lastStarted fw, LastStopped := lastStopped fw\<rparr>) of
           None \<Rightarrow> fs\<lparr>files := (files fs)(statusFile \<mapsto> OtherBytes [])\<rparr>
         | Some j \<Rightarrow>
             (if faulty fs statusFile then fs\<lparr>files := (files fs)(statusFile \<mapsto> OtherBytes [])\<rparr>
              else fs\<lparr>files := (files fs)(statusFile \<mapsto> JsonText j)\<rparr>)))"

definition ReadStatusFile :: "time_codec \<Rightarrow> string \<Rightarrow> filesystem \<Rightarrow> Flywheel \<Rightarrow> Flywheel" where
  "ReadStatusFile codec statusFile fs fw =
     (if locked fs statusFile then fw
      else
        (case files fs statusFile of
           None \<Rightarrow> fw
         | Some content \<Rightarrow>
             (if faulty fs statusFile then fw
              else
                (case content of
                   OtherBytes b \<Rightarrow> fw
                 | JsonText j \<Rightarrow>
                     (case json_Unmarshal codec j of
                        Inl e \<Rightarrow> fw
                      | Inr st \<Rightarrow>
                          fw\<lparr>status := Status st, lastStarted := LastStarted st,
                             lastStopped := LastStopped st\<rparr>)))))"

section \<open>The HTTP front end\<close>

text \<open>
  A URL, with \<open>RawQuery\<close> the query as it stands in the request line, a string of
  bytes. \<open>url.Values\<close>, a map from a key to the list of its values, is a list of
  entries with distinct keys.
\<close>

record URL =
  Scheme :: string
  Host :: string
  Path :: string
  RawQuery :: string

record Request =
  Req_URL :: URL
  Req_Host :: string
  RequestURI :: string

type_synonym Values = "(string \<times> string list) list"

fun values_Add :: "string \<Rightarrow> string \<Rightarrow> Values \<Rightarrow> Values" where
  "values_Add k v [] = [(k, [v])]"
| "values_Add k v ((k', vs) # m) =
     (if k = k' then (k', vs @ [v]) # m else (k', vs) # values_Add k v m)"

text \<open>
  \<open>url.QueryUnescape\<close>: a plus sign is a space, a percent sign and two hexadecimal
  digits are the byte they denote, and a percent sign without two hexadecimal digits
  behind it is an error.
\<close>

definition ishex :: "char \<Rightarrow> bool" where
  "ishex c =
     ((CHR ''0'' \<le> c \<and> c \<le> CHR ''9'') \<or> (CHR ''a'' \<le> c \<and> c \<le> CHR ''f'') \<or>
      (CHR ''A'' \<le> c \<and> c \<le> CHR ''F''))"

definition unhex :: "char \<Rightarrow> nat" where
  "unhex c =
     (if CHR ''0'' \<le> c \<and> c \<le> CHR ''9'' then of_char c - of_char CHR ''0''
      else if CHR ''a'' \<le> c \<and> c \<le> CHR ''f'' then of_char c - of_char CHR ''a'' + 10
      else if CHR ''A'' \<le> c \<and> c \<le> CHR ''F'' then of_char c - of_char CHR ''A'' + 10
      else 0)"

fun QueryUnescape :: "string \<Rightarrow> string option" where
  "QueryUnescape [] = Some []"
| "QueryUnescape (c # cs) =
     (if c = CHR ''%'' then
        (case cs of
           h1 # h2 # rest \<Rightarrow>
             (if ishex h1 \<and> ishex h2 then
                map_option ((#) (char_of (unhex h1 * 16 + unhex h2))) (QueryUnescape rest)
              else None)
         | _ \<Rightarrow> None)
      else if c = CHR ''+'' then map_option ((#) CHR '' '') (QueryUnescape cs)
      else map_option ((#) c) (QueryUnescape cs))"

text \<open>
  The pieces between the separators of a string, and a string cut at the first
  occurrence of a separator (\<open>strings.Cut\<close>).
\<close>

fun split_on :: "char \<Rightarrow> string \<Rightarrow> string list" where
  "split_on sep [] = [[]]"
| "split_on sep (c # cs) =
     (if c = sep then [] # split_on sep cs
      else (case split_on sep cs of
              [] \<Rightarrow> [[c]]
            | p # ps \<Rightarrow> (c # p) # ps))"

fun cut_at :: "char \<Rightarrow> string \<Rightarrow> string \<times> string" where
  "cut_at sep [] = ([], [])"
| "cut_at sep (c # cs) =
     (if c = sep then ([], cs)
      else (case cut_at sep cs of (before, after) \<Rightarrow> (c # before, after)))"

text \<open>
  \<open>url.ParseQuery\<close> takes the pieces between ampersands one by one. It passes over a
  piece that holds a semicolon (since Go 1.17), an empty piece, and a piece whose key or
  value does not unescape; of any other piece it appends the value to the values of the
  key. \<open>ParseQuery\<close> lists the pairs appended, in order. The error that
  \<open>url.ParseQuery\<close> reports for a piece it passes over is dropped by \<open>URL.Query\<close>.
\<close>

definition parse_pair :: "string \<Rightarrow> (string \<times> string) option" where
  "parse_pair piece =
     (if CHR '';'' \<in> set piece then None
      else if piece = [] then None
      else
        (case cut_at CHR ''='' piece of
           (key, val) \<Rightarrow>
             (case QueryUnescape key of
                None \<Rightarrow> None
              | Some key' \<Rightarrow>
                  (case QueryUnescape val of
                     None \<Rightarrow> None
                   | Some val' \<Rightarrow> Some (key', val')))))"

definition ParseQuery :: "string \<Rightarrow> (string \<times> string) list" where
  "ParseQuery query = List.map_filter parse_pair (split_on CHR ''&'' query)"

definition url_Query :: "URL \<Rightarrow> Values" where
  "url_Query u = foldl (\<lambda>m (k, v). values_Add k v m) [] (ParseQuery (RawQuery u))"

definition values_Del :: "string \<Rightarrow> Values \<Rightarrow> Values" where
  "values_Del k m = filter (\<lambda>(k', vs). k' \<noteq> k) m"

definition values_Set :: "string \<Rightarrow> string \<Rightarrow> Values \<Rightarrow> Values" where
  "values_Set k v m = values_Del k m @ [(k, [v])]"

text \<open>
  \<open>url.QueryEscape\<close> writes a space as a plus sign, leaves letters, digits and the four
  marks \<open>- _ . ~\<close> as they are, and writes any other byte as a percent sign and two
  upper-case hexadecimal digits.
\<close>

definition shouldEscape :: "char \<Rightarrow> bool" where
  "shouldEscape c =
     (\<not> ((CHR ''a'' \<le> c \<and> c \<le> CHR ''z'') \<or> (CHR ''A'' \<le> c \<and> c \<le> CHR ''Z'') \<or>
         (CHR ''0'' \<le> c \<and> c \<le> CHR ''9'') \<or>
         c = CHR ''-'' \<or> c = CHR ''_'' \<or> c = CHR ''.'' \<or> c = CHR ''~''))"

definition upperhex :: "nat \<Rightarrow> char" where
  "upperhex n = ''0123456789ABCDEF'' ! n"

definition QueryEscape :: "string \<Rightarrow> string" where
  "QueryEscape s =
     concat (map (\<lambda>c. if c = CHR '' '' then ''+''
                       else if shouldEscape c then
                         [CHR ''%'', upperhex (of_char c div 16), upperhex (of_char c mod 16)]
                       else [c]) s)"

text \<open>
  \<open>Encode\<close> writes the keys in sorted order, each with its values in their order, as
  \<open>key=value\<close> with key and value escaped, and an ampersand between two pairs.
\<close>

fun join_amp :: "string list \<Rightarrow> string" where
  "join_amp [] = []"
| "join_amp [x] = x"
| "join_amp (x # y # zs) = x @ ''&'' @ join_amp (y # zs)"

definition values_Encode :: "Values \<Rightarrow> string" where
  "values_Encode m =
     join_amp (concat (map (\<lambda>(k, vs). map (\<lambda>v. QueryEscape k @ ''='' @ QueryEscape v) vs)
                         (sort_key fst m)))"

definition ProxyEndpoint :: "Flywheel \<Rightarrow> string \<Rightarrow> string" where
  "ProxyEndpoint fw hostname =
     (case Vhosts (config fw) hostname of
        Some vhost \<Rightarrow> vhost
      | None \<Rightarrow> Endpoint (config fw))"

text \<open>
  The Ping that \<open>SendPing\<close> puts on \<open>fw.pings\<close>. The loop of \<open>Spin\<close> hands it to
  \<open>RecvPing\<close>; \<open>SendPing\<close> then takes the Pong from the reply channel. The result
  names the Ping sent, the Pong received, and the flywheel and world that
  \<open>RecvPing\<close> leaves.
\<close>

definition SendPing :: "bool \<Rightarrow> Flywheel \<Rightarrow> world \<Rightarrow> (Ping \<times> Pong \<times> Flywheel \<times> world) outcome" where
  "SendPing start fw w =
     and_then
       (RecvPing \<lparr>replyTo = make_chan 1, setTimeout = 0, requestStart = start,
                  requestStop = False, noop = False\<rparr> fw w)
       (\<lambda>(ch, fw', w').
          and_then (chan_recv ch) (\<lambda>(pong, ch').
            Done (\<lparr>replyTo = make_chan 1, setTimeout = 0, requestStart = start,
                    requestStop = False, noop = False\<rparr>, pong, fw', w')))"

text \<open>
  What the handler writes to the \<open>ResponseWriter\<close>. The page bodies are rendered from
  the \<open>HTML_*\<close> format constants, declared elsewhere; a \<open>Location\<close> header is kept as
  the URL it renders.
\<close>

record backend_response =
  resp_StatusCode :: int
  resp_Header :: "(string \<times> string list) list"
  resp_Body :: string

datatype page =
    HTML_ERROR error
  | HTML_STOPPED URL
  | HTML_STARTING
  | HTML_STOPPING
  | HTML_UNHEALTHY

datatype response =
    Redirect URL
  | Body page
  | InvalidEndpoint
  | ServiceUnavailable
  | Relayed backend_response
  | Empty

text \<open>
  \<open>Proxy\<close> returns what it writes and the requests it hands to \<open>client.Do\<close>, whose
  answer is the parameter \<open>client\<close>. \<open>r.URL.Query()\<close> parses the query into a fresh
  map, so the \<open>Del\<close> on it leaves the request as it is. An empty endpoint ends the
  process in \<open>log.Fatal\<close> after the 500 response.
\<close>

definition Proxy :: "(Request \<Rightarrow> error + backend_response) \<Rightarrow> Flywheel \<Rightarrow> Request \<Rightarrow> response \<times> Request list" where
  "Proxy client fw r =
     (let discarded = values_Del ''flywheel'' (url_Query (Req_URL r));
          endpoint = ProxyEndpoint fw (Req_Host r)
      in if endpoint = [] then (InvalidEndpoint, [])
         else
           (case client (r\<lparr>Req_URL := (Req_URL r)\<lparr>Scheme := ''http'', Host := endpoint\<rparr>,
                             RequestURI := []\<rparr>) of
              Inl e \<Rightarrow>
                (ServiceUnavailable,
                 [r\<lparr>Req_URL := (Req_URL r)\<lparr>Scheme := ''http'', Host := endpoint\<rparr>,
                     RequestURI := []\<rparr>])
            | Inr resp \<Rightarrow>
                (Relayed resp,
                 [r\<lparr>Req_URL := (Req_URL r)\<lparr>Scheme := ''http'', Host := endpoint\<rparr>,
                     RequestURI := []\<rparr>])))"

text \<open>
  \<open>ServeHTTP\<close> returns the Ping it sent, what it wrote, the requests forwarded to the
  backend, and the flywheel and world after the ping.
\<close>

definition ServeHTTP ::
  "(Request \<Rightarrow> error + backend_response) \<Rightarrow> Request \<Rightarrow> Flywheel \<Rightarrow> world \<Rightarrow>
     (Ping \<times> (response \<times> Request list) \<times> Flywheel \<times> world) outcome" where
  "ServeHTTP client r fw w =
     and_then
       (case map_of (url_Query (Req_URL r)) ''flywheel'' of
          None \<Rightarrow> Done False
        | Some [] \<Rightarrow> Panic
        | Some (v # vs) \<Rightarrow> Done (v = ''start''))
       (\<lambda>start.
          and_then (SendPing start fw w) (\<lambda>(sreq, pong, fw', w').
            Done (sreq,
                  (if map_of (url_Query (Req_URL r)) ''flywheel'' \<noteq> None then
                     (Redirect ((Req_URL r)\<lparr>RawQuery :=
                        values_Encode (values_Del ''flywheel'' (url_Query (Req_URL r)))\<rparr>), [])
                   else
                     (case Err pong of
                        Some e \<Rightarrow> (Body (HTML_ERROR e), [])
                      | None \<Rightarrow>
                          (if Status pong = STOPPED then
                             (Body (HTML_STOPPED ((Req_URL r)\<lparr>RawQuery :=
                                values_Encode (values_Set ''flywheel'' ''start''
                                                 (url_Query (Req_URL r)))\<rparr>)), [])
                           else if Status pong = STARTING then (Body HTML_STARTING, [])
                           else if Status pong = STARTED then Proxy client fw r
                           else if Status pong = STOPPING then (Body HTML_STOPPING, [])
                           else if Status pong = UNHEALTHY then (Body HTML_UNHEALTHY, [])
                           else (Empty, [])))),
                  fw', w')))"

section \<open>Vocabulary of the properties\<close>

text \<open>
  \<open>results_of rsp h cs\<close> lists the errors (or nil) that the calls \<open>cs\<close>, made one after
  the other after the history \<open>h\<close>, come back with; \<open>made w w'\<close> lists the calls made
  between the worlds \<open>w\<close> and \<open>w'\<close>.
\<close>

fun results_of ::
  "(api_call list \<Rightarrow> api_call \<Rightarrow> asg list \<times> error option) \<Rightarrow> api_call list \<Rightarrow> api_call list \<Rightarrow>
     error option list" where
  "results_of rsp h [] = []"
| "results_of rsp h (c # cs) = snd (rsp h c) # results_of rsp (h @ [c]) cs"

definition made :: "world \<Rightarrow> world \<Rightarrow> api_call list" where
  "made w w' = drop (length (calls w)) (calls w')"

text \<open>
  A chain of calls that ends with the result \<open>r\<close>: every call succeeded when \<open>r\<close> is
  nil; otherwise the last call made is the only one that failed, and \<open>r\<close> is its
  error.
\<close>

definition chain_result :: "error option \<Rightarrow> error option list \<Rightarrow> bool" where
  "chain_result r rs =
     (case r of
        None \<Rightarrow> list_all (\<lambda>x. x = None) rs
      | Some e \<Rightarrow> rs \<noteq> [] \<and> last rs = Some e \<and> list_all (\<lambda>x. x = None) (butlast rs))"

definition step_trace :: "world \<Rightarrow> error option \<Rightarrow> world \<Rightarrow> bool" where
  "step_trace w r w' =
     (w' = w\<lparr>calls := calls w @ made w w'\<rparr> \<and>
      chain_result r (results_of (respond w) (calls w) (made w w')))"

text \<open>
  The resource client keeps to its contract when a describe call that reports no
  error names at least one group.
\<close>

definition describes_a_group :: "world \<Rightarrow> bool" where
  "describes_a_group w =
     (\<forall>h names. snd (respond w h (AS_DescribeAutoScalingGroups names)) = None \<longrightarrow>
                 fst (respond w h (AS_DescribeAutoScalingGroups names)) \<noteq> [])"

section \<open>Example states\<close>

text \<open>
  A configuration with one raw instance, one scaling group that is sized to zero and
  restored, and one scaling group whose members are stopped and started.
\<close>

definition demo_config :: Config where
  "demo_config =
     \<lparr>Endpoint = ''10.0.0.5:8080'', Vhosts = Map.empty, HcInterval = 30, IdleTimeout = 600,
      Instances = [''i-0a''],
      AutoScaling = \<lparr>as_Terminate = [(''batch'', 2)], as_Stop = [''web'']\<rparr>\<rparr>"

definition demo_flywheel :: "int \<Rightarrow> Flywheel" where
  "demo_flywheel s =
     \<lparr>config = demo_config, status = s, ready = True, stopAt = 500,
      lastStarted = 100, lastStopped = 50, hcInterval = 30, idleTimeout = 600\<rparr>"

text \<open>Three resource clients: one that serves every call, one that refuses every call,
  and one that reports no error and no group.\<close>

definition healthy_api :: "api_call list \<Rightarrow> api_call \<Rightarrow> asg list \<times> error option" where
  "healthy_api h c =
     ([\<lparr>AutoScalingGroupName = ''web'', InstanceIds = [''i-0b'', ''i-0c'']\<rparr>], None)"

definition throttled_api :: "api_call list \<Rightarrow> api_call \<Rightarrow> asg list \<times> error option" where
  "throttled_api h c = ([], Some ''RequestLimitExceeded'')"

definition groupless_api :: "api_call list \<Rightarrow> api_call \<Rightarrow> asg list \<times> error option" where
  "groupless_api h c = ([], None)"

text \<open>A world whose clock reads 1000, 1010, 1020, ...\<close>

definition demo_world :: "(api_call list \<Rightarrow> api_call \<Rightarrow> asg list \<times> error option) \<Rightarrow> world" where
  "demo_world api = \<lparr>clock = (\<lambda>n. 1000 + 10 * int n), reads = 0, respond = api, calls = []\<rparr>"

definition demo_ping :: Ping where
  "demo_ping = \<lparr>replyTo = make_chan 1, setTimeout = 0, requestStart = False,
                 requestStop = False, noop = False\<rparr>"

text \<open>A stand-in for the time package's text form: an instant \<open>t\<close> from 0 on is written
  as \<open>t\<close> strokes.\<close>

definition demo_codec :: time_codec where
  "demo_codec =
     \<lparr>time_MarshalJSON = (\<lambda>t. if 0 \<le> t then Some (replicate (nat t) CHR ''I'') else None),
      time_UnmarshalJSON =
        (\<lambda>s. if list_all (\<lambda>c. c = CHR ''I'') s then Some (int (length s)) else None)\<rparr>"

definition demo_fs :: filesystem where
  "demo_fs = \<lparr>files = Map.empty, locked = (\<lambda>p. False), faulty = (\<lambda>p. False)\<rparr>"

definition demo_request :: "string \<Rightarrow> Request" where
  "demo_request q =
     \<lparr>Req_URL = \<lparr>Scheme = [], Host = [], Path = ''/index.html'', RawQuery = q\<rparr>,
      Req_Host = ''www.example.org'', RequestURI = ''/index.html''\<rparr>"

definition demo_backend :: "Request \<Rightarrow> error + backend_response" where
  "demo_backend r = Inr \<lparr>resp_StatusCode = 200, resp_Header = [], resp_Body = ''ok''\<rparr>"

section \<open>Facts about the world and the traces of calls\<close>

lemma called_simps [simp]:
  "calls (called c w) = calls w @ [c]"
  "respond (called c w) = respond w"
  "clock (called c w) = clock w"
  "reads (called c w) = reads w"
  by (simp_all add: called_def)

lemma ticked_simps [simp]:
  "calls (ticked w) = calls w"
  "respond (ticked w) = respond w"
  "clock (ticked w) = clock w"
  "reads (ticked w) = Suc (reads w)"
  by (simp_all add: ticked_def)

lemma results_of_append:
  "results_of rsp h (cs @ ds) = results_of rsp h cs @ results_of rsp (h @ cs) ds"
  by (induction cs arbitrary: h) auto

lemma step_traceI:
  assumes "w' = w\<lparr>calls := calls w @ cs\<rparr>"
    and "chain_result r (results_of (respond w) (calls w) cs)"
  shows "step_trace w r w'"
  using assms by (simp add: step_trace_def made_def)

lemma step_traceE:
  assumes "step_trace w r w'"
  obtains cs where "w' = w\<lparr>calls := calls w @ cs\<rparr>"
    and "chain_result r (results_of (respond w) (calls w) cs)"
  using assms unfolding step_trace_def by blast

lemma step_trace_refl: "step_trace w None w"
  by (rule step_traceI [where cs = "[]"]) (simp_all add: chain_result_def)

lemma step_trace_called: "step_trace w (call_err c w) (called c w)"
  by (rule step_traceI [where cs = "[c]"])
     (simp_all add: called_def call_err_def chain_result_def split: option.splits)

lemma chain_result_append:
  "chain_result None rs \<Longrightarrow> chain_result r ss \<Longrightarrow> chain_result r (rs @ ss)"
  by (cases r) (auto simp: chain_result_def butlast_append)

lemma step_trace_trans:
  assumes "step_trace w None w1" and "step_trace w1 r w2"
  shows "step_trace w r w2"
proof -
  from assms(1) obtain cs where w1: "w1 = w\<lparr>calls := calls w @ cs\<rparr>"
    and c1: "chain_result None (results_of (respond w) (calls w) cs)"
    by (rule step_traceE)
  from assms(2) obtain ds where w2: "w2 = w1\<lparr>calls := calls w1 @ ds\<rparr>"
    and c2: "chain_result r (results_of (respond w1) (calls w1) ds)"
    by (rule step_traceE)
  show ?thesis
  proof (rule step_traceI [where cs = "cs @ ds"])
    show "w2 = w\<lparr>calls := calls w @ cs @ ds\<rparr>" using w1 w2 by simp
    show "chain_result r (results_of (respond w) (calls w) (cs @ ds))"
      using c1 c2 w1 by (simp add: results_of_append chain_result_append)
  qed
qed

lemma step_trace_after:
  assumes "call_err c w = None" and "step_trace (called c w) r w'"
  shows "step_trace w r w'"
  using step_trace_trans [OF _ assms(2)] step_trace_called [of w c] assms(1) by simp

lemma step_trace_failed:
  assumes "call_err c w = Some e"
  shows "step_trace w (Some e) (called c w)"
  using step_trace_called [of w c] assms by simp

lemma step_trace_respond: "step_trace w r w' \<Longrightarrow> respond w' = respond w"
  by (erule step_traceE) simp

lemma step_trace_clock: "step_trace w r w' \<Longrightarrow> clock w' = clock w \<and> reads w' = reads w"
  by (erule step_traceE) simp

section \<open>Each sequence makes one chain of calls\<close>

lemma unterminate_groups_trace:
  "unterminate_groups gs w = Done (r, w') \<Longrightarrow> step_trace w r w'"
proof (induction gs arbitrary: w)
  case Nil
  then show ?case by (simp add: step_trace_refl)
next
  case (Cons g gs)
  obtain n z where g: "g = (n, z)" by (cases g)
  let ?c = "AS_UpdateAutoScalingGroup n z z"
  show ?case
  proof (cases "call_err ?c w")
    case None
    with Cons.prems g have "unterminate_groups gs (called ?c w) = Done (r, w')" by simp
    then have "step_trace (called ?c w) r w'" by (rule Cons.IH)
    moreover have "step_trace w None (called ?c w)"
      using step_trace_called [of w ?c] None by simp
    ultimately show ?thesis by (rule step_trace_trans [rotated])
  next
    case (Some e)
    with Cons.prems g have "r = Some e" "w' = called ?c w" by simp_all
    then show ?thesis using step_trace_called [of w ?c] Some by simp
  qed
qed

lemma terminate_groups_trace:
  "terminate_groups gs w = Done (r, w') \<Longrightarrow> step_trace w r w'"
proof (induction gs arbitrary: w)
  case Nil
  then show ?case by (simp add: step_trace_refl)
next
  case (Cons g gs)
  obtain n z where g: "g = (n, z)" by (cases g)
  let ?c = "AS_UpdateAutoScalingGroup n 0 0"
  show ?case
  proof (cases "call_err ?c w")
    case None
    with Cons.prems g have "terminate_groups gs (called ?c w) = Done (r, w')" by simp
    then have "step_trace (called ?c w) r w'" by (rule Cons.IH)
    moreover have "step_trace w None (called ?c w)"
      using step_trace_called [of w ?c] None by simp
    ultimately show ?thesis by (rule step_trace_trans [rotated])
  next
    case (Some e)
    with Cons.prems g have "r = Some e" "w' = called ?c w" by simp_all
    then show ?thesis using step_trace_called [of w ?c] Some by simp
  qed
qed

lemma start_groups_trace:
  "start_groups gs w = Done (r, w') \<Longrightarrow> step_trace w r w'"
proof (induction gs arbitrary: w)
  case Nil
  then show ?case by (simp add: step_trace_refl)
next
  case (Cons g gs)
  note run = Cons.prems and IH = Cons.IH
  let ?d = "AS_DescribeAutoScalingGroups [g]"
  show ?case
  proof (cases "call_err ?d w")
    case (Some e)
    with run have "r = Some e" "w' = called ?d w" by simp_all
    then show ?thesis using step_trace_failed [OF Some] by simp
  next
    case None
    note d_ok = this
    show ?thesis
    proof (cases "call_resp ?d w")
      case Nil
      with run d_ok show ?thesis by simp
    next
      case (Cons grp grps)
      let ?s = "EC2_StartInstances (InstanceIds grp)"
      show ?thesis
      proof (cases "call_err ?s (called ?d w)")
        case (Some e)
        with run d_ok Cons have "r = Some e" "w' = called ?s (called ?d w)" by simp_all
        then show ?thesis
          using step_trace_after [OF d_ok step_trace_failed [OF Some]] by simp
      next
        case None
        with run d_ok Cons
        have "start_groups gs (called ?s (called ?d w)) = Done (r, w')" by simp
        then have "step_trace (called ?s (called ?d w)) r w'" by (rule IH)
        then show ?thesis
          by (intro step_trace_after [OF d_ok] step_trace_after [OF None])
      qed
    qed
  qed
qed

lemma stop_groups_trace:
  "stop_groups gs w = Done (r, w') \<Longrightarrow> step_trace w r w'"
proof (induction gs arbitrary: w)
  case Nil
  then show ?case by (simp add: step_trace_refl)
next
  case (Cons g gs)
  note run = Cons.prems and IH = Cons.IH
  let ?d = "AS_DescribeAutoScalingGroups [g]"
  show ?case
  proof (cases "call_err ?d w")
    case (Some e)
    with run have "r = Some e" "w' = called ?d w" by simp_all
    then show ?thesis using step_trace_failed [OF Some] by simp
  next
    case None
    note d_ok = this
    show ?thesis
    proof (cases "call_resp ?d w")
      case Nil
      with run d_ok show ?thesis by simp
    next
      case (Cons grp grps)
      note resp = this
      let ?p = "AS_SuspendProcesses (AutoScalingGroupName grp) [''ReplaceUnhealthy'']"
      let ?s = "EC2_StopInstances (InstanceIds grp)"
      show ?thesis
      proof (cases "call_err ?p (called ?d w)")
        case (Some e)
        with run d_ok resp have "r = Some e" "w' = called ?p (called ?d w)" by simp_all
        then show ?thesis
          using step_trace_after [OF d_ok step_trace_failed [OF Some]] by simp
      next
        case None
        note p_ok = this
        show ?thesis
        proof (cases "call_err ?s (called ?p (called ?d w))")
          case (Some e)
          with run d_ok resp p_ok
          have "r = Some e" "w' = called ?s (called ?p (called ?d w))" by simp_all
          then show ?thesis
            using step_trace_after [OF d_ok step_trace_after [OF p_ok step_trace_failed [OF Some]]]
            by simp
        next
          case None
          with run d_ok resp p_ok
          have "stop_groups gs (called ?s (called ?p (called ?d w))) = Done (r, w')" by simp
          then have "step_trace (called ?s (called ?p (called ?d w))) r w'" by (rule IH)
          then show ?thesis
            by (intro step_trace_after [OF d_ok] step_trace_after [OF p_ok]
                      step_trace_after [OF None])
        qed
      qed
    qed
  qed
qed

lemma startInstances_trace:
  "startInstances cfg w = Done (r, w') \<Longrightarrow> step_trace w r w'"
  by (auto simp: startInstances_def step_trace_refl step_trace_called split: if_splits)

lemma stopInstances_trace:
  "stopInstances cfg w = Done (r, w') \<Longrightarrow> step_trace w r w'"
  by (auto simp: stopInstances_def step_trace_refl step_trace_called split: if_splits)

lemma and_then_Done:
  "and_then m f = Done y \<longleftrightarrow> (\<exists>x. m = Done x \<and> f x = Done y)"
  by (cases m) simp_all

text \<open>The three steps of a sequence, one after the other, each run only when none before it failed.\<close>

lemma chain_trace:
  assumes s1: "\<And>w r w'. step1 w = Done (r, w') \<Longrightarrow> step_trace w r w'"
    and s2: "\<And>w r w'. step2 w = Done (r, w') \<Longrightarrow> step_trace w r w'"
    and s3: "\<And>w r w'. step3 w = Done (r, w') \<Longrightarrow> step_trace w r w'"
    and run: "and_then (step1 w) (\<lambda>(err1, w1).
              and_then (if err1 = None then step2 w1 else Done (err1, w1)) (\<lambda>(err2, w2).
              and_then (if err2 = None then step3 w2 else Done (err2, w2)) (\<lambda>(err3, w3).
                k err3 w3))) = Done y"
  shows "\<exists>r w3. step_trace w r w3 \<and> k r w3 = Done y"
proof -
  from run obtain err1 w1 where r1: "step1 w = Done (err1, w1)"
    and run1: "and_then (if err1 = None then step2 w1 else Done (err1, w1)) (\<lambda>(err2, w2).
              and_then (if err2 = None then step3 w2 else Done (err2, w2)) (\<lambda>(err3, w3).
                k err3 w3)) = Done y"
    by (auto simp: and_then_Done)
  from run1 obtain err2 w2 where r2: "(if err1 = None then step2 w1 else Done (err1, w1)) = Done (err2, w2)"
    and run2: "and_then (if err2 = None then step3 w2 else Done (err2, w2)) (\<lambda>(err3, w3).
                k err3 w3) = Done y"
    by (auto simp: and_then_Done)
  from run2 obtain err3 w3 where r3: "(if err2 = None then step3 w2 else Done (err2, w2)) = Done (err3, w3)"
    and fin: "k err3 w3 = Done y"
    by (auto simp: and_then_Done)
  have t1: "step_trace w err1 w1" using r1 by (rule s1)
  have t2: "step_trace w err2 w2"
  proof (cases "err1 = None")
    case True
    with r2 have "step_trace w1 err2 w2" by (simp add: s2)
    with t1 True show ?thesis by (auto intro: step_trace_trans)
  next
    case False
    with r2 t1 show ?thesis by simp
  qed
  have t3: "step_trace w err3 w3"
  proof (cases "err2 = None")
    case True
    with r3 have "step_trace w2 err3 w3" by (simp add: s3)
    with t2 True show ?thesis by (auto intro: step_trace_trans)
  next
    case False
    with r3 t2 show ?thesis by simp
  qed
  from t3 fin show ?thesis by blast
qed

lemma Start_Done:
  assumes "Start fw w = Done (r, fw', w')"
  shows "\<exists>w3. step_trace (ticked w) r w3 \<and>
           (case r of
              Some e \<Rightarrow> fw' = fw\<lparr>lastStarted := time_Now w\<rparr> \<and> w' = w3
            | None \<Rightarrow>
                fw' = fw\<lparr>lastStarted := time_Now w, ready := False,
                         stopAt := time_Now w3 + idleTimeout fw, status := STARTING\<rparr> \<and>
                w' = ticked w3)"
proof -
  have "\<exists>r' w3. step_trace (ticked w) r' w3 \<and>
          (case r' of
             Some e \<Rightarrow> Done (Some e, fw\<lparr>lastStarted := time_Now w\<rparr>, w3)
           | None \<Rightarrow>
               Done (None,
                     fw\<lparr>lastStarted := time_Now w, ready := False,
                        stopAt := time_Now w3 + idleTimeout fw, status := STARTING\<rparr>,
                     ticked w3)) = Done (r, fw', w')"
    by (rule chain_trace [where ?step1.0 = "startInstances (config fw)"
          and ?step2.0 = "unterminateAutoScaling (config fw)"
          and ?step3.0 = "startAutoScaling (config fw)"])
       (use assms in \<open>auto simp: Start_def unterminateAutoScaling_def startAutoScaling_def
          intro: startInstances_trace unterminate_groups_trace start_groups_trace\<close>)
  then show ?thesis by (auto split: option.splits)
qed

lemma Stop_Done:
  assumes "Stop fw w = Done (r, fw', w')"
  shows "\<exists>w3. step_trace (ticked w) r w3 \<and> w' = w3 \<and>
           (case r of
              Some e \<Rightarrow> fw' = fw\<lparr>lastStopped := time_Now w\<rparr>
            | None \<Rightarrow>
                fw' = fw\<lparr>lastStopped := time_Now w, ready := False, status := STOPPING,
                         stopAt := time_Now w\<rparr>)"
proof -
  have "\<exists>r' w3. step_trace (ticked w) r' w3 \<and>
          (case r' of
             Some e \<Rightarrow> Done (Some e, fw\<lparr>lastStopped := time_Now w\<rparr>, w3)
           | None \<Rightarrow>
               Done (None,
                     fw\<lparr>lastStopped := time_Now w, ready := False, status := STOPPING,
                        stopAt := time_Now w\<rparr>,
                     w3)) = Done (r, fw', w')"
    by (rule chain_trace [where ?step1.0 = "stopInstances (config fw)"
          and ?step2.0 = "terminateAutoScaling (config fw)"
          and ?step3.0 = "stopAutoScaling (config fw)"])
       (use assms in \<open>auto simp: Stop_def terminateAutoScaling_def stopAutoScaling_def
          intro: stopInstances_trace terminate_groups_trace stop_groups_trace\<close>)
  then show ?thesis by (auto split: option.splits)
qed

lemma Start_success:
  assumes "Start fw w = Done (None, fw1, w1)"
  shows "fw1 = fw\<lparr>lastStarted := time_Now w, ready := False,
                   stopAt := clock w (Suc (reads w)) + idleTimeout fw, status := STARTING\<rparr>"
proof -
  from Start_Done [OF assms] obtain w3 where tr: "step_trace (ticked w) None w3"
    and fw1: "fw1 = fw\<lparr>lastStarted := time_Now w, ready := False,
                        stopAt := time_Now w3 + idleTimeout fw, status := STARTING\<rparr>"
    by auto
  from step_trace_clock [OF tr] have "time_Now w3 = clock w (Suc (reads w))"
    by (simp add: time_Now_def)
  with fw1 show ?thesis by simp
qed

lemma Start_failure:
  assumes "Start fw w = Done (Some e, fw1, w1)"
  shows "fw1 = fw\<lparr>lastStarted := time_Now w\<rparr>"
  using Start_Done [OF assms] by auto

lemma Stop_failure:
  assumes "Stop fw w = Done (Some e, fw1, w1)"
  shows "fw1 = fw\<lparr>lastStopped := time_Now w\<rparr>"
  using Stop_Done [OF assms] by auto

section \<open>The sequences return when the resource client keeps to its contract\<close>

lemma describes_a_group_respond:
  "respond w' = respond w \<Longrightarrow> describes_a_group w' = describes_a_group w"
  by (simp add: describes_a_group_def)

lemma describes_a_group_called [simp]: "describes_a_group (called c w) = describes_a_group w"
  by (simp add: describes_a_group_def)

lemma describes_a_group_ticked [simp]: "describes_a_group (ticked w) = describes_a_group w"
  by (simp add: describes_a_group_def)

lemma step_trace_describes:
  "step_trace w r w' \<Longrightarrow> describes_a_group w' = describes_a_group w"
  by (rule describes_a_group_respond) (rule step_trace_respond)

lemma described:
  "describes_a_group w \<Longrightarrow> call_err (AS_DescribeAutoScalingGroups ns) w = None \<Longrightarrow>
     \<exists>grp grps. call_resp (AS_DescribeAutoScalingGroups ns) w = grp # grps"
  by (cases "call_resp (AS_DescribeAutoScalingGroups ns) w")
     (auto simp: describes_a_group_def call_err_def call_resp_def)

lemma unterminate_groups_returns: "\<exists>r w'. unterminate_groups gs w = Done (r, w')"
  by (induction gs arbitrary: w) (auto split: option.splits)

lemma terminate_groups_returns: "\<exists>r w'. terminate_groups gs w = Done (r, w')"
  by (induction gs arbitrary: w) (auto split: option.splits)

lemma start_groups_returns:
  "describes_a_group w \<Longrightarrow> \<exists>r w'. start_groups gs w = Done (r, w')"
proof (induction gs arbitrary: w)
  case Nil
  show ?case by simp
next
  case (Cons g gs)
  note ok = Cons.prems and IH = Cons.IH
  let ?d = "AS_DescribeAutoScalingGroups [g]"
  show ?case
  proof (cases "call_err ?d w")
    case (Some e)
    then show ?thesis by simp
  next
    case None
    note d_ok = this
    with ok obtain grp grps where resp: "call_resp ?d w = grp # grps"
      using described by blast
    let ?s = "EC2_StartInstances (InstanceIds grp)"
    show ?thesis
    proof (cases "call_err ?s (called ?d w)")
      case (Some e)
      with d_ok resp show ?thesis by simp
    next
      case None
      have "\<exists>r w'. start_groups gs (called ?s (called ?d w)) = Done (r, w')"
        by (rule IH) (simp add: ok)
      with d_ok resp None show ?thesis by simp
    qed
  qed
qed

lemma stop_groups_returns:
  "describes_a_group w \<Longrightarrow> \<exists>r w'. stop_groups gs w = Done (r, w')"
proof (induction gs arbitrary: w)
  case Nil
  show ?case by simp
next
  case (Cons g gs)
  note ok = Cons.prems and IH = Cons.IH
  let ?d = "AS_DescribeAutoScalingGroups [g]"
  show ?case
  proof (cases "call_err ?d w")
    case (Some e)
    then show ?thesis by simp
  next
    case None
    note d_ok = this
    with ok obtain grp grps where resp: "call_resp ?d w = grp # grps"
      using described by blast
    let ?p = "AS_SuspendProcesses (AutoScalingGroupName grp) [''ReplaceUnhealthy'']"
    let ?s = "EC2_StopInstances (InstanceIds grp)"
    show ?thesis
    proof (cases "call_err ?p (called ?d w)")
      case (Some e)
      with d_ok resp show ?thesis by simp
    next
      case None
      note p_ok = this
      show ?thesis
      proof (cases "call_err ?s (called ?p (called ?d w))")
        case (Some e)
        with d_ok resp p_ok show ?thesis by simp
      next
        case None
        have "\<exists>r w'. stop_groups gs (called ?s (called ?p (called ?d w))) = Done (r, w')"
          by (rule IH) (simp add: ok)
        with d_ok resp p_ok None show ?thesis by simp
      qed
    qed
  qed
qed

lemma guarded_returns:
  assumes "\<And>w. ok w \<Longrightarrow> \<exists>r w'. step w = Done (r, w') \<and> ok w'" and "ok w"
  shows "\<exists>r w'. (if err = None then step w else Done (err, w)) = Done (r, w') \<and> ok w'"
proof (cases err)
  case None
  then show ?thesis using assms by simp
next
  case (Some e)
  then show ?thesis using assms(2) by simp
qed

lemma chain_returns:
  assumes s1: "\<And>w. ok w \<Longrightarrow> \<exists>r w'. step1 w = Done (r, w') \<and> ok w'"
    and s2: "\<And>w. ok w \<Longrightarrow> \<exists>r w'. step2 w = Done (r, w') \<and> ok w'"
    and s3: "\<And>w. ok w \<Longrightarrow> \<exists>r w'. step3 w = Done (r, w') \<and> ok w'"
    and fin: "\<And>r w. \<exists>y. k r w = Done y"
    and ok: "ok w"
  shows "\<exists>y. and_then (step1 w) (\<lambda>(err1, w1).
              and_then (if err1 = None then step2 w1 else Done (err1, w1)) (\<lambda>(err2, w2).
              and_then (if err2 = None then step3 w2 else Done (err2, w2)) (\<lambda>(err3, w3).
                k err3 w3))) = Done y"
proof -
  from s1 [OF ok] obtain err1 w1 where r1: "step1 w = Done (err1, w1)" and ok1: "ok w1"
    by blast
  from guarded_returns [of ok step2, OF s2 ok1] obtain err2 w2
    where r2: "(if err1 = None then step2 w1 else Done (err1, w1)) = Done (err2, w2)"
      and ok2: "ok w2"
    by blast
  from guarded_returns [of ok step3, OF s3 ok2] obtain err3 w3
    where r3: "(if err2 = None then step3 w2 else Done (err2, w2)) = Done (err3, w3)"
    by blast
  from fin obtain y where y: "k err3 w3 = Done y" by blast
  have "and_then (step1 w) (\<lambda>(err1, w1).
              and_then (if err1 = None then step2 w1 else Done (err1, w1)) (\<lambda>(err2, w2).
              and_then (if err2 = None then step3 w2 else Done (err2, w2)) (\<lambda>(err3, w3).
                k err3 w3))) = Done y"
    by (simp only: r1 and_then.simps prod.case r2 r3 y)
  then show ?thesis ..
qed

lemma Start_returns:
  assumes "describes_a_group w"
  shows "\<exists>r fw' w'. Start fw w = Done (r, fw', w')"
proof -
  have "\<exists>y. Start fw w = Done y"
    unfolding Start_def
  proof (rule chain_returns [where ok = describes_a_group])
    show "\<exists>r w'. startInstances (config fw) w = Done (r, w') \<and> describes_a_group w'"
      if "describes_a_group w" for w
      using that by (simp add: startInstances_def)
    show "\<exists>r w'. unterminateAutoScaling (config fw) w = Done (r, w') \<and> describes_a_group w'"
      if "describes_a_group w" for w
      using that unterminate_groups_returns [of "as_Terminate (AutoScaling (config fw))" w]
      by (auto simp: unterminateAutoScaling_def dest: unterminate_groups_trace step_trace_describes)
    show "\<exists>r w'. startAutoScaling (config fw) w = Done (r, w') \<and> describes_a_group w'"
      if "describes_a_group w" for w
      using that start_groups_returns [OF that, of "as_Stop (AutoScaling (config fw))"]
      by (auto simp: startAutoScaling_def dest: start_groups_trace step_trace_describes)
    show "\<exists>y. (case r of
                 Some e \<Rightarrow> Done (Some e, fw\<lparr>lastStarted := time_Now w\<rparr>, w3)
               | None \<Rightarrow>
                   Done (None,
                         fw\<lparr>lastStarted := time_Now w, ready := False,
                            stopAt := time_Now w3 + idleTimeout fw, status := STARTING\<rparr>,
                         ticked w3)) = Done y" for r w3
      by (cases r) simp_all
    show "describes_a_group (ticked w)" using assms by simp
  qed
  then show ?thesis by auto
qed

lemma Stop_returns:
  assumes "describes_a_group w"
  shows "\<exists>r fw' w'. Stop fw w = Done (r, fw', w')"
proof -
  have "\<exists>y. Stop fw w = Done y"
    unfolding Stop_def
  proof (rule chain_returns [where ok = describes_a_group])
    show "\<exists>r w'. stopInstances (config fw) w = Done (r, w') \<and> describes_a_group w'"
      if "describes_a_group w" for w
      using that by (simp add: stopInstances_def)
    show "\<exists>r w'. terminateAutoScaling (config fw) w = Done (r, w') \<and> describes_a_group w'"
      if "describes_a_group w" for w
      using that terminate_groups_returns [of "as_Terminate (AutoScaling (config fw))" w]
      by (auto simp: terminateAutoScaling_def dest: terminate_groups_trace step_trace_describes)
    show "\<exists>r w'. stopAutoScaling (config fw) w = Done (r, w') \<and> describes_a_group w'"
      if "describes_a_group w" for w
      using that stop_groups_returns [OF that, of "as_Stop (AutoScaling (config fw))"]
      by (auto simp: stopAutoScaling_def dest: stop_groups_trace step_trace_describes)
    show "\<exists>y. (case r of
                 Some e \<Rightarrow> Done (Some e, fw\<lparr>lastStopped := time_Now w\<rparr>, w3)
               | None \<Rightarrow>
                   Done (None,
                         fw\<lparr>lastStopped := time_Now w, ready := False, status := STOPPING,
                            stopAt := time_Now w\<rparr>,
                         w3)) = Done y" for r w3
      by (cases r) simp_all
    show "describes_a_group (ticked w)" using assms by simp
  qed
  then show ?thesis by auto
qed

section \<open>Facts about the authority loop\<close>

lemma reply_sent:
  assumes "\<not> is_closed c" and "length (buf c) < capacity c"
  shows "and_then (chan_send p c) (\<lambda>ch. and_then (chan_close ch) (\<lambda>ch'. Done (ch', x)))
           = Done (c\<lparr>buf := buf c @ [p], is_closed := True\<rparr>, x)"
  using assms by (simp add: chan_send_def chan_close_def)

lemma states_distinct:
  "STOPPED \<noteq> STARTING" "STOPPED \<noteq> STARTED" "STOPPED \<noteq> STOPPING" "STOPPED \<noteq> UNHEALTHY"
  "STARTING \<noteq> STARTED" "STARTING \<noteq> STOPPING" "STARTING \<noteq> UNHEALTHY"
  "STARTED \<noteq> STOPPING" "STARTED \<noteq> UNHEALTHY" "STOPPING \<noteq> UNHEALTHY"
  by (simp_all add: STOPPED_def STARTING_def STARTED_def STOPPING_def UNHEALTHY_def)

lemmas states_differ = states_distinct states_distinct [symmetric]

lemma RecvPing_Done:
  assumes "RecvPing ping fw w = Done (ch, fw', w')"
  shows "\<exists>err. ch = (replyTo ping)\<lparr>buf := buf (replyTo ping) @
                  [\<lparr>Status = status fw', StatusName = StatusString (status fw'), Err = err,
                    LastStarted = lastStarted fw', LastStopped = lastStopped fw',
                    StopAt = stopAt fw'\<rparr>],
                 is_closed := True\<rparr>"
  using assms unfolding RecvPing_def and_then_Done
  by (auto simp: chan_send_def chan_close_def split: if_splits)

text \<open>
  What \<open>RecvPing\<close> does on a reply channel that is open and has room. While State is
  STARTING, STOPPING or UNHEALTHY it leaves the flywheel and the world as they were and
  puts one Pong, the snapshot of the unchanged fields, on the channel before closing it.
  In any state it puts one Pong on the channel when the resource client names a group
  for every describe call that succeeds.
\<close>

lemma request_always_answered:
  assumes "\<not> is_closed (replyTo ping)" and "length (buf (replyTo ping)) < capacity (replyTo ping)"
  shows "(status fw = STARTING \<or> status fw = STOPPING \<or> status fw = UNHEALTHY \<longrightarrow>
            RecvPing ping fw w =
              Done ((replyTo ping)\<lparr>buf := buf (replyTo ping) @
                       [\<lparr>Status = status fw, StatusName = StatusString (status fw), Err = None,
                         LastStarted = lastStarted fw, LastStopped = lastStopped fw,
                         StopAt = stopAt fw\<rparr>],
                      is_closed := True\<rparr>, fw, w)) \<and>
         (describes_a_group w \<longrightarrow>
            (\<exists>err fw' w'.
               RecvPing ping fw w =
                 Done ((replyTo ping)\<lparr>buf := buf (replyTo ping) @
                          [\<lparr>Status = status fw', StatusName = StatusString (status fw'), Err = err,
                            LastStarted = lastStarted fw', LastStopped = lastStopped fw',
                            StopAt = stopAt fw'\<rparr>],
                         is_closed := True\<rparr>, fw', w')))"
proof (intro conjI impI)
  assume "status fw = STARTING \<or> status fw = STOPPING \<or> status fw = UNHEALTHY"
  then have "status fw \<noteq> STOPPED" "status fw \<noteq> STARTED"
    using states_differ by auto
  with assms show "RecvPing ping fw w =
              Done ((replyTo ping)\<lparr>buf := buf (replyTo ping) @
                       [\<lparr>Status = status fw, StatusName = StatusString (status fw), Err = None,
                         LastStarted = lastStarted fw, LastStopped = lastStopped fw,
                         StopAt = stopAt fw\<rparr>],
                      is_closed := True\<rparr>, fw, w)"
    by (simp add: RecvPing_def reply_sent)
next
  assume contract: "describes_a_group w"
  let ?act = "(if status fw = STOPPED then
          (if requestStart ping then Start fw w else Done (None, fw, w))
        else if status fw = STARTED then
          (if noop ping then Done (None, fw, w)
           else if requestStop ping then Stop fw w
           else if setTimeout ping \<noteq> 0 then
             Done (None, fw\<lparr>stopAt := time_Now w + setTimeout ping\<rparr>, ticked w)
           else
             Done (None, fw\<lparr>stopAt := time_Now w + idleTimeout fw\<rparr>, ticked w))
        else Done (None, fw, w))"
  have "\<exists>err fw' w'. ?act = Done (err, fw', w')"
    using Start_returns [OF contract, of fw] Stop_returns [OF contract, of fw] by auto
  then obtain err fw' w' where act: "?act = Done (err, fw', w')" by blast
  have "RecvPing ping fw w =
          Done ((replyTo ping)\<lparr>buf := buf (replyTo ping) @
                   [\<lparr>Status = status fw', StatusName = StatusString (status fw'), Err = err,
                     LastStarted = lastStarted fw', LastStopped = lastStopped fw',
                     StopAt = stopAt fw'\<rparr>],
                  is_closed := True\<rparr>, fw', w')"
    unfolding RecvPing_def act using assms by (simp add: reply_sent)
  then show "\<exists>err fw' w'.
               RecvPing ping fw w =
                 Done ((replyTo ping)\<lparr>buf := buf (replyTo ping) @
                          [\<lparr>Status = status fw', StatusName = StatusString (status fw'), Err = err,
                            LastStarted = lastStarted fw', LastStopped = lastStopped fw',
                            StopAt = stopAt fw'\<rparr>],
                         is_closed := True\<rparr>, fw', w')"
    by blast
qed

section \<open>Facts about the snapshot\<close>

lemma decode_field_Status: "decode_field codec k v p = Inr p' \<Longrightarrow> Status p' = Status p"
  by (auto simp: decode_field_def split: if_splits json.splits sum.splits)

lemma decode_fields_Status: "decode_fields codec kvs p = Inr p' \<Longrightarrow> Status p' = Status p"
proof (induction kvs arbitrary: p)
  case Nil
  then show ?case by simp
next
  case (Cons kv kvs)
  obtain k v where kv: "kv = (k, v)" by (cases kv)
  from Cons.prems kv obtain q where q: "decode_field codec k v p = Inr q"
    and rest: "decode_fields codec kvs q = Inr p'"
    by (auto split: sum.splits)
  from Cons.IH [OF rest] decode_field_Status [OF q] show ?case by simp
qed

lemma json_Unmarshal_Status: "json_Unmarshal codec j = Inr st \<Longrightarrow> Status st = 0"
  by (cases j) (auto simp: json_Unmarshal_def zero_Pong_def dest: decode_fields_Status)

lemma ReadStatusFile_cases:
  "ReadStatusFile codec p fs fw = fw \<or>
   (\<exists>a b. ReadStatusFile codec p fs fw = fw\<lparr>status := 0, lastStarted := a, lastStopped := b\<rparr>)"
proof (cases "\<exists>j st. \<not> locked fs p \<and> files fs p = Some (JsonText j) \<and> \<not> faulty fs p \<and>
                json_Unmarshal codec j = Inr st")
  case True
  then obtain j st where "\<not> locked fs p" "files fs p = Some (JsonText j)" "\<not> faulty fs p"
    and st: "json_Unmarshal codec j = Inr st"
    by blast
  then have "ReadStatusFile codec p fs fw =
               fw\<lparr>status := Status st, lastStarted := LastStarted st, lastStopped := LastStopped st\<rparr>"
    by (simp add: ReadStatusFile_def)
  with json_Unmarshal_Status [OF st] show ?thesis by auto
next
  case False
  then have "ReadStatusFile codec p fs fw = fw"
    by (auto simp: ReadStatusFile_def split: option.splits bytes.splits sum.splits)
  then show ?thesis ..
qed

section \<open>Facts about the query of a URL\<close>

lemma map_of_values_Add:
  "map_of (values_Add k v m) k' =
     (if k' = k then Some ((case map_of m k of None \<Rightarrow> [] | Some vs \<Rightarrow> vs) @ [v])
      else map_of m k')"
  by (induction m) auto

lemma map_of_parsed:
  "map_of (foldl (\<lambda>m (k, v). values_Add k v m) m0 q) k =
     (case map_of m0 k of
        None \<Rightarrow> (if map snd (filter (\<lambda>(k', v). k' = k) q) = [] then None
                 else Some (map snd (filter (\<lambda>(k', v). k' = k) q)))
      | Some vs \<Rightarrow> Some (vs @ map snd (filter (\<lambda>(k', v). k' = k) q)))"
proof (induction q arbitrary: m0)
  case Nil
  then show ?case by (simp split: option.splits)
next
  case (Cons kv q)
  obtain k1 v1 where kv: "kv = (k1, v1)" by (cases kv)
  show ?case
    unfolding kv foldl_Cons prod.case Cons.IH map_of_values_Add
    by (simp split: option.splits)
qed

lemma map_of_url_Query:
  "map_of (url_Query u) k =
     (if map snd (filter (\<lambda>(k', v). k' = k) (ParseQuery (RawQuery u))) = [] then None
      else Some (map snd (filter (\<lambda>(k', v). k' = k) (ParseQuery (RawQuery u)))))"
  by (simp add: url_Query_def map_of_parsed)

lemma url_Query_None:
  "map_of (url_Query u) k = None \<longleftrightarrow> k \<notin> fst ` set (ParseQuery (RawQuery u))"
  by (force simp: map_of_url_Query filter_empty_conv)

lemma url_Query_first:
  assumes "map_of (url_Query u) k = Some (v # vs)"
  shows "(k, v) \<in> set (ParseQuery (RawQuery u))"
proof -
  from assms have eq: "map snd (filter (\<lambda>(k', v). k' = k) (ParseQuery (RawQuery u))) = v # vs"
    by (simp add: map_of_url_Query split: if_splits)
  have "v \<in> set (map snd (filter (\<lambda>(k', v). k' = k) (ParseQuery (RawQuery u))))"
    unfolding eq by simp
  then show ?thesis by auto
qed

section \<open>Facts about the front end\<close>

lemma SendPing_Done:
  assumes "SendPing start fw w = Done (sreq, pong, fw', w')"
  shows "sreq = \<lparr>replyTo = make_chan 1, setTimeout = 0, requestStart = start,
                 requestStop = False, noop = False\<rparr> \<and>
         Status pong = status fw'"
proof -
  let ?ping = "\<lparr>replyTo = make_chan 1, setTimeout = 0, requestStart = start,
                 requestStop = False, noop = False\<rparr>"
  from assms [unfolded SendPing_def and_then_Done] obtain x
    where x: "RecvPing ?ping fw w = Done x"
      and rest0: "(case x of (ch, fw', w') \<Rightarrow>
                    and_then (chan_recv ch) (\<lambda>(pong, ch'). Done (?ping, pong, fw', w')))
                  = Done (sreq, pong, fw', w')"
    by blast
  obtain ch fw1 w1 where xs: "x = (ch, fw1, w1)" by (cases x)
  from x xs have r: "RecvPing ?ping fw w = Done (ch, fw1, w1)" by simp
  from rest0 xs
  have rest: "and_then (chan_recv ch) (\<lambda>(pong, ch'). Done (?ping, pong, fw1, w1))
                 = Done (sreq, pong, fw', w')"
    by simp
  from RecvPing_Done [OF r] obtain err
    where ch: "ch = (replyTo ?ping)\<lparr>buf := buf (replyTo ?ping) @
                  [\<lparr>Status = status fw1, StatusName = StatusString (status fw1), Err = err,
                    LastStarted = lastStarted fw1, LastStopped = lastStopped fw1,
                    StopAt = stopAt fw1\<rparr>],
                 is_closed := True\<rparr>"
    by blast
  from rest show ?thesis
    unfolding ch by (auto simp: chan_recv_def make_chan_def)
qed

lemma ServeHTTP_Done:
  assumes "ServeHTTP client r fw w = Done (sreq, out, fw', w')"
  obtains start pong
  where "(case map_of (url_Query (Req_URL r)) ''flywheel'' of
            None \<Rightarrow> Done False
          | Some [] \<Rightarrow> Panic
          | Some (v # vs) \<Rightarrow> Done (v = ''start'')) = Done start"
    and "SendPing start fw w = Done (sreq, pong, fw', w')"
    and "out =
           (if map_of (url_Query (Req_URL r)) ''flywheel'' \<noteq> None then
              (Redirect ((Req_URL r)\<lparr>RawQuery :=
                 values_Encode (values_Del ''flywheel'' (url_Query (Req_URL r)))\<rparr>), [])
            else
              (case Err pong of
                 Some e \<Rightarrow> (Body (HTML_ERROR e), [])
               | None \<Rightarrow>
                   (if Status pong = STOPPED then
                      (Body (HTML_STOPPED ((Req_URL r)\<lparr>RawQuery :=
                         values_Encode (values_Set ''flywheel'' ''start''
                                          (url_Query (Req_URL r)))\<rparr>)), [])
                    else if Status pong = STARTING then (Body HTML_STARTING, [])
                    else if Status pong = STARTED then Proxy client fw r
                    else if Status pong = STOPPING then (Body HTML_STOPPING, [])
                    else if Status pong = UNHEALTHY then (Body HTML_UNHEALTHY, [])
                    else (Empty, []))))"
proof -
  from assms [unfolded ServeHTTP_def and_then_Done] obtain start x
    where s: "(case map_of (url_Query (Req_URL r)) ''flywheel'' of
            None \<Rightarrow> Done False
          | Some [] \<Rightarrow> Panic
          | Some (v # vs) \<Rightarrow> Done (v = ''start'')) = Done start"
      and x: "SendPing start fw w = Done x"
      and fin: "(case x of (sreq, pong, fw', w') \<Rightarrow>
            Done (sreq,
                  (if map_of (url_Query (Req_URL r)) ''flywheel'' \<noteq> None then
                     (Redirect ((Req_URL r)\<lparr>RawQuery :=
                        values_Encode (values_Del ''flywheel'' (url_Query (Req_URL r)))\<rparr>), [])
                   else
                     (case Err pong of
                        Some e \<Rightarrow> (Body (HTML_ERROR e), [])
                      | None \<Rightarrow>
                          (if Status pong = STOPPED then
                             (Body (HTML_STOPPED ((Req_URL r)\<lparr>RawQuery :=
                                values_Encode (values_Set ''flywheel'' ''start''
                                                 (url_Query (Req_URL r)))\<rparr>)), [])
                           else if Status pong = STARTING then (Body HTML_STARTING, [])
                           else if Status pong = STARTED then Proxy client fw r
                           else if Status pong = STOPPING then (Body HTML_STOPPING, [])
                           else if Status pong = UNHEALTHY then (Body HTML_UNHEALTHY, [])
                           else (Empty, [])))),
                  fw', w')) = Done (sreq, out, fw', w')"
    by blast
  obtain sreq1 pong fw1 w1 where xs: "x = (sreq1, pong, fw1, w1)" by (cases x)
  from fin xs have eqs: "sreq1 = sreq" "fw1 = fw'" "w1 = w'" by simp_all
  show thesis
  proof (rule that [of start pong])
    show "(case map_of (url_Query (Req_URL r)) ''flywheel'' of
            None \<Rightarrow> Done False
          | Some [] \<Rightarrow> Panic
          | Some (v # vs) \<Rightarrow> Done (v = ''start'')) = Done start" by (rule s)
    show "SendPing start fw w = Done (sreq, pong, fw', w')" using x xs eqs by simp
    show "out =
           (if map_of (url_Query (Req_URL r)) ''flywheel'' \<noteq> None then
              (Redirect ((Req_URL r)\<lparr>RawQuery :=
                 values_Encode (values_Del ''flywheel'' (url_Query (Req_URL r)))\<rparr>), [])
            else
              (case Err pong of
                 Some e \<Rightarrow> (Body (HTML_ERROR e), [])
               | None \<Rightarrow>
                   (if Status pong = STOPPED then
                      (Body (HTML_STOPPED ((Req_URL r)\<lparr>RawQuery :=
                         values_Encode (values_Set ''flywheel'' ''start''
                                          (url_Query (Req_URL r)))\<rparr>)), [])
                    else if Status pong = STARTING then (Body HTML_STARTING, [])
                    else if Status pong = STARTED then Proxy client fw r
                    else if Status pong = STOPPING then (Body HTML_STOPPING, [])
                    else if Status pong = UNHEALTHY then (Body HTML_UNHEALTHY, [])
                    else (Empty, []))))"
      using fin xs by simp
  qed
qed

lemma SendPing_started:
  assumes "status fw = STARTED" and "SendPing start fw w = Done (sreq, pong, fw', w')"
  shows "fw' = fw\<lparr>stopAt := time_Now w + idleTimeout fw\<rparr> \<and> w' = ticked w"
  using assms
  by (auto simp: SendPing_def RecvPing_def chan_send_def chan_close_def chan_recv_def
        make_chan_def states_differ)

text \<open>
  A request that \<open>ServeHTTP\<close> hands to the backend is the inbound request with scheme
  and host rewritten and the query as it came; it is handed over only when the Pong
  reports STARTED, and \<open>url.ParseQuery\<close> reads no "flywheel" key from its query.
\<close>

lemma forwarded_query_parses_without_directive:
  assumes "ServeHTTP client r fw w = Done (sreq, (resp, fwd), fw', w')" and "r' \<in> set fwd"
  shows "''flywheel'' \<notin> fst ` set (ParseQuery (RawQuery (Req_URL r'))) \<and>
         RawQuery (Req_URL r') = RawQuery (Req_URL r) \<and>
         map_of (url_Query (Req_URL r')) ''flywheel'' = None \<and>
         status fw' = STARTED \<and>
         r' = r\<lparr>Req_URL := (Req_URL r)\<lparr>Scheme := ''http'', Host := ProxyEndpoint fw (Req_Host r)\<rparr>,
                 RequestURI := []\<rparr>"
proof -
  from assms(1) obtain start pong
    where p: "SendPing start fw w = Done (sreq, pong, fw', w')"
      and out: "(resp, fwd) =
           (if map_of (url_Query (Req_URL r)) ''flywheel'' \<noteq> None then
              (Redirect ((Req_URL r)\<lparr>RawQuery :=
                 values_Encode (values_Del ''flywheel'' (url_Query (Req_URL r)))\<rparr>), [])
            else
              (case Err pong of
                 Some e \<Rightarrow> (Body (HTML_ERROR e), [])
               | None \<Rightarrow>
                   (if Status pong = STOPPED then
                      (Body (HTML_STOPPED ((Req_URL r)\<lparr>RawQuery :=
                         values_Encode (values_Set ''flywheel'' ''start''
                                          (url_Query (Req_URL r)))\<rparr>)), [])
                    else if Status pong = STARTING then (Body HTML_STARTING, [])
                    else if Status pong = STARTED then Proxy client fw r
                    else if Status pong = STOPPING then (Body HTML_STOPPING, [])
                    else if Status pong = UNHEALTHY then (Body HTML_UNHEALTHY, [])
                    else (Empty, []))))"
    by (rule ServeHTTP_Done)
  from out assms(2) have none: "map_of (url_Query (Req_URL r)) ''flywheel'' = None"
    by (auto split: if_splits)
  from out assms(2) none have started: "Status pong = STARTED"
    and prox: "(resp, fwd) = Proxy client fw r"
    by (auto split: if_splits option.splits)
  from prox assms(2)
  have r': "r' = r\<lparr>Req_URL := (Req_URL r)\<lparr>Scheme := ''http'', Host := ProxyEndpoint fw (Req_Host r)\<rparr>,
                   RequestURI := []\<rparr>"
    by (auto simp: Proxy_def Let_def split: if_splits sum.splits)
  then have q: "RawQuery (Req_URL r') = RawQuery (Req_URL r)" by simp
  then have "url_Query (Req_URL r') = url_Query (Req_URL r)" by (simp add: url_Query_def)
  with none have none': "map_of (url_Query (Req_URL r')) ''flywheel'' = None" by simp
  have absent: "''flywheel'' \<notin> fst ` set (ParseQuery (RawQuery (Req_URL r')))"
    using none' url_Query_None [of "Req_URL r'" "''flywheel''"] by blast
  from SendPing_Done [OF p] started have st: "status fw' = STARTED" by simp
  show ?thesis by (rule conjI [OF absent conjI [OF q conjI [OF none' conjI [OF st r']]]])
qed

section \<open>The example states, evaluated\<close>

lemmas demo_defs =
  demo_config_def demo_flywheel_def demo_world_def demo_ping_def healthy_api_def
  throttled_api_def groupless_api_def make_chan_def

lemmas run_defs =
  Start_def Stop_def startInstances_def stopInstances_def unterminateAutoScaling_def
  terminateAutoScaling_def startAutoScaling_def stopAutoScaling_def AwsInstances_def
  call_err_def call_resp_def called_def ticked_def time_Now_def

lemmas serve_defs =
  ServeHTTP_def SendPing_def RecvPing_def Proxy_def ProxyEndpoint_def url_Query_def
  values_Del_def values_Set_def values_Encode_def chan_send_def chan_recv_def chan_close_def
  demo_request_def demo_backend_def

lemmas query_defs =
  ParseQuery_def parse_pair_def List.map_filter_def ishex_def unhex_def less_eq_char_def
  QueryEscape_def shouldEscape_def upperhex_def

lemma demo_describes: "describes_a_group (demo_world healthy_api)"
  by (simp add: describes_a_group_def demo_defs)

lemma demo_Start_healthy:
  "\<exists>fw1 w1. Start (demo_flywheel STOPPED) (demo_world healthy_api) = Done (None, fw1, w1)"
  by (simp add: demo_defs run_defs)

lemma demo_Start_throttled:
  "\<exists>fw1 w1. Start (demo_flywheel STOPPED) (demo_world throttled_api)
      = Done (Some ''RequestLimitExceeded'', fw1, w1)"
  by (simp add: demo_defs run_defs)

lemma demo_Stop_healthy:
  "\<exists>fw1 w1. Stop (demo_flywheel STARTED) (ticked (demo_world healthy_api)) = Done (None, fw1, w1)"
  by (simp add: demo_defs run_defs)

lemma demo_Stop_throttled:
  "\<exists>fw1 w1. Stop (demo_flywheel STARTED) (ticked (demo_world throttled_api))
      = Done (Some ''RequestLimitExceeded'', fw1, w1)"
  by (simp add: demo_defs run_defs)

lemma demo_Stop_refused:
  "\<exists>fw1 w1. Stop (demo_flywheel STARTED) (demo_world throttled_api)
      = Done (Some ''RequestLimitExceeded'', fw1, w1)"
  by (simp add: demo_defs run_defs)

lemma demo_codec_marshal:
  "0 \<le> t \<Longrightarrow> time_MarshalJSON demo_codec t = Some (replicate (nat t) CHR ''I'')"
  by (simp add: demo_codec_def)

lemma demo_codec_unmarshal:
  "time_UnmarshalJSON demo_codec (replicate n CHR ''I'') = Some (int n)"
  by (simp add: demo_codec_def list_all_iff)

lemma fold_key_tags:
  "fold_key ''status'' = ''status''" "fold_key ''last-started'' = ''last-started''"
  "fold_key ''last-stopped'' = ''last-stopped''" "fold_key ''stop-due-at'' = ''stop-due-at''"
  by (simp_all add: fold_key.simps fold_byte_def less_eq_char_def)

text \<open>A key in capitals, and a key written with the long s, fold to the tag name.\<close>

lemma fold_key_folds:
  "fold_key ''STATUS'' = ''status''"
  "fold_key [CHR 0xC5, CHR 0xBF, CHR ''t'', CHR ''a'', CHR ''t'', CHR ''u'', CHR 0xC5, CHR 0xBF] = ''status''"
  "fold_key [CHR 0xE2, CHR 0x84, CHR 0xAA] = ''k''"
  by code_simp+

lemma demo_snapshot_written:
  "WriteStatusFile demo_codec (demo_flywheel STARTED) ''flywheel.status'' demo_fs =
     demo_fs\<lparr>files := [''flywheel.status'' \<mapsto>
        JsonText (JObject [(''status'', JString ''STARTED''),
                           (''last-started'', JString (replicate 100 CHR ''I'')),
                           (''last-stopped'', JString (replicate 50 CHR ''I'')),
                           (''stop-due-at'', JString [])])]\<rparr>"
  by (simp add: WriteStatusFile_def json_Marshal_def zero_Pong_def demo_codec_marshal
        demo_flywheel_def demo_fs_def StatusString_def states_differ)

lemma demo_snapshot_read:
  "ReadStatusFile demo_codec ''flywheel.status''
     (WriteStatusFile demo_codec (demo_flywheel STARTED) ''flywheel.status'' demo_fs) fw
   = fw\<lparr>status := 0, lastStarted := 100, lastStopped := 50\<rparr>"
  unfolding demo_snapshot_written
  using demo_codec_unmarshal [of 0]
  by (simp add: ReadStatusFile_def demo_fs_def json_Unmarshal_def decode_field_def fold_key_tags
        decode_time_def demo_codec_unmarshal zero_Pong_def)

lemma demo_queries:
  "ParseQuery ''page=2&flywheel=start'' = [(''page'', ''2''), (''flywheel'', ''start'')]"
  "ParseQuery ''flywheel=status'' = [(''flywheel'', ''status'')]"
  "ParseQuery ''flywheel=start&page=2'' = [(''flywheel'', ''start''), (''page'', ''2'')]"
  "ParseQuery ''flywheel=start%zz&page=2'' = [(''page'', ''2'')]"
  "ParseQuery [] = []"
  by (simp_all add: query_defs)

lemma demo_ServeHTTP_start:
  "\<exists>sreq out fw' w'.
     ServeHTTP demo_backend (demo_request ''page=2&flywheel=start'')
       (demo_flywheel STOPPED) (demo_world healthy_api) = Done (sreq, out, fw', w')"
  by (simp add: serve_defs demo_defs run_defs states_differ demo_queries)

lemma demo_ServeHTTP_status:
  "\<exists>sreq out fw' w'.
     ServeHTTP demo_backend (demo_request ''flywheel=status'')
       (demo_flywheel STARTED) (demo_world healthy_api) = Done (sreq, out, fw', w')"
  by (simp add: serve_defs demo_defs states_differ demo_queries)

section \<open>The claims\<close>

text \<open>
  C1. The snapshot written for a flywheel whose State is STARTED, read back into a fresh
  flywheel, restores lastStarted and lastStopped but leaves State at STOPPED: the Status
  field of the Pong is never written to the file, and the State name that is written is
  not read back into State.
\<close>

theorem snapshot_roundtrip_loses_state:
  "status (demo_flywheel STARTED) = STARTED \<and>
   status (ReadStatusFile demo_codec ''flywheel.status''
       (WriteStatusFile demo_codec (demo_flywheel STARTED) ''flywheel.status'' demo_fs)
       (fst (New demo_config (demo_world healthy_api)))) = STOPPED \<and>
   STOPPED \<noteq> STARTED \<and>
   lastStarted (ReadStatusFile demo_codec ''flywheel.status''
       (WriteStatusFile demo_codec (demo_flywheel STARTED) ''flywheel.status'' demo_fs)
       (fst (New demo_config (demo_world healthy_api)))) = lastStarted (demo_flywheel STARTED) \<and>
   lastStopped (ReadStatusFile demo_codec ''flywheel.status''
       (WriteStatusFile demo_codec (demo_flywheel STARTED) ''flywheel.status'' demo_fs)
       (fst (New demo_config (demo_world healthy_api)))) = lastStopped (demo_flywheel STARTED)"
  unfolding demo_snapshot_read by (simp add: demo_flywheel_def STOPPED_def STARTED_def)

text \<open>
  C2, as amended. When the orchestrated Start returns an error, the calls made are one
  chain whose last call is the only one that failed, with that error; every field of the
  flywheel is as before except lastStarted, which holds the clock reading taken on
  entry; and a start-flagged Request processed while STOPPED carries the error in its
  Reply. The same holds of Stop with lastStopped, and of a stop-flagged Request
  processed while STARTED.
\<close>

theorem failed_sequence_frame:
  "(Start fw w = Done (Some e, fw', w') \<longrightarrow>
      fw' = fw\<lparr>lastStarted := time_Now w\<rparr> \<and>
      status fw' = status fw \<and> ready fw' = ready fw \<and> stopAt fw' = stopAt fw \<and>
      lastStopped fw' = lastStopped fw \<and>
      chain_result (Some e) (results_of (respond w) (calls w) (made w w')) \<and>
      (status fw = STOPPED \<and> requestStart ping \<and> \<not> is_closed (replyTo ping) \<and>
       length (buf (replyTo ping)) < capacity (replyTo ping) \<longrightarrow>
         RecvPing ping fw w =
           Done ((replyTo ping)\<lparr>buf := buf (replyTo ping) @
                    [\<lparr>Status = status fw, StatusName = StatusString (status fw), Err = Some e,
                      LastStarted = time_Now w, LastStopped = lastStopped fw,
                      StopAt = stopAt fw\<rparr>],
                   is_closed := True\<rparr>, fw', w'))) \<and>
   (Stop fw w = Done (Some e, fw', w') \<longrightarrow>
      fw' = fw\<lparr>lastStopped := time_Now w\<rparr> \<and>
      status fw' = status fw \<and> ready fw' = ready fw \<and> stopAt fw' = stopAt fw \<and>
      lastStarted fw' = lastStarted fw \<and>
      chain_result (Some e) (results_of (respond w) (calls w) (made w w')) \<and>
      (status fw = STARTED \<and> \<not> noop ping \<and> requestStop ping \<and> \<not> is_closed (replyTo ping) \<and>
       length (buf (replyTo ping)) < capacity (replyTo ping) \<longrightarrow>
         RecvPing ping fw w =
           Done ((replyTo ping)\<lparr>buf := buf (replyTo ping) @
                    [\<lparr>Status = status fw, StatusName = StatusString (status fw), Err = Some e,
                      LastStarted = lastStarted fw, LastStopped = time_Now w,
                      StopAt = stopAt fw\<rparr>],
                   is_closed := True\<rparr>, fw', w')))"
proof (intro conjI impI)
  assume bad: "Start fw w = Done (Some e, fw', w')"
  from Start_Done [OF bad] have tr: "step_trace (ticked w) (Some e) w'"
    and fw': "fw' = fw\<lparr>lastStarted := time_Now w\<rparr>"
    by auto
  from fw' show "fw' = fw\<lparr>lastStarted := time_Now w\<rparr>" "status fw' = status fw"
    "ready fw' = ready fw" "stopAt fw' = stopAt fw" "lastStopped fw' = lastStopped fw"
    by simp_all
  from tr show "chain_result (Some e) (results_of (respond w) (calls w) (made w w'))"
    by (simp add: step_trace_def made_def)
  assume "status fw = STOPPED \<and> requestStart ping \<and> \<not> is_closed (replyTo ping) \<and>
       length (buf (replyTo ping)) < capacity (replyTo ping)"
  with bad fw' show "RecvPing ping fw w =
           Done ((replyTo ping)\<lparr>buf := buf (replyTo ping) @
                    [\<lparr>Status = status fw, StatusName = StatusString (status fw), Err = Some e,
                      LastStarted = time_Now w, LastStopped = lastStopped fw,
                      StopAt = stopAt fw\<rparr>],
                   is_closed := True\<rparr>, fw', w')"
    by (simp add: RecvPing_def reply_sent)
next
  assume bad: "Stop fw w = Done (Some e, fw', w')"
  from Stop_Done [OF bad] have tr: "step_trace (ticked w) (Some e) w'"
    and fw': "fw' = fw\<lparr>lastStopped := time_Now w\<rparr>"
    by auto
  from fw' show "fw' = fw\<lparr>lastStopped := time_Now w\<rparr>" "status fw' = status fw"
    "ready fw' = ready fw" "stopAt fw' = stopAt fw" "lastStarted fw' = lastStarted fw"
    by simp_all
  from tr show "chain_result (Some e) (results_of (respond w) (calls w) (made w w'))"
    by (simp add: step_trace_def made_def)
  assume "status fw = STARTED \<and> \<not> noop ping \<and> requestStop ping \<and> \<not> is_closed (replyTo ping) \<and>
       length (buf (replyTo ping)) < capacity (replyTo ping)"
  with bad fw' show "RecvPing ping fw w =
           Done ((replyTo ping)\<lparr>buf := buf (replyTo ping) @
                    [\<lparr>Status = status fw, StatusName = StatusString (status fw), Err = Some e,
                      LastStarted = lastStarted fw, LastStopped = time_Now w,
                      StopAt = stopAt fw\<rparr>],
                   is_closed := True\<rparr>, fw', w')"
    by (simp add: RecvPing_def reply_sent states_differ)
qed

text \<open>
  The claim as stated fails: a Start whose first call is refused returns the error and
  has moved lastStarted from 100 to the clock reading 1000.
\<close>

theorem failed_sequence_frame_counterexample:
  "(case Start (demo_flywheel STOPPED) (demo_world throttled_api) of
      Done (r, fw', w') \<Rightarrow>
        r = Some ''RequestLimitExceeded'' \<and> calls w' = [EC2_StartInstances [''i-0a'']] \<and>
        lastStarted (demo_flywheel STOPPED) = 100 \<and> lastStarted fw' = 1000
    | Panic \<Rightarrow> False
    | Blocked \<Rightarrow> False)"
  by (simp add: demo_defs run_defs)

theorem failed_sequence_frame_witness:
  "(\<exists>fw' w'. Start (demo_flywheel STOPPED) (demo_world throttled_api)
                = Done (Some ''RequestLimitExceeded'', fw', w') \<and>
             fw' = (demo_flywheel STOPPED)\<lparr>lastStarted := 1000\<rparr> \<and>
             (\<exists>ch. RecvPing (demo_ping\<lparr>requestStart := True\<rparr>) (demo_flywheel STOPPED)
                     (demo_world throttled_api) = Done (ch, fw', w') \<and>
                   map Status (buf ch) = [STOPPED] \<and>
                   map Err (buf ch) = [Some ''RequestLimitExceeded''])) \<and>
   (\<exists>fw' w'. Stop (demo_flywheel STARTED) (demo_world throttled_api)
                = Done (Some ''RequestLimitExceeded'', fw', w') \<and>
             fw' = (demo_flywheel STARTED)\<lparr>lastStopped := 1000\<rparr> \<and>
             (\<exists>ch. RecvPing (demo_ping\<lparr>requestStop := True\<rparr>) (demo_flywheel STARTED)
                     (demo_world throttled_api) = Done (ch, fw', w') \<and>
                   map Status (buf ch) = [STARTED] \<and>
                   map Err (buf ch) = [Some ''RequestLimitExceeded'']))"
proof -
  have now: "time_Now (demo_world throttled_api) = 1000"
    by (simp add: demo_defs time_Now_def)
  from demo_Start_throttled obtain fw1 w1
    where a: "Start (demo_flywheel STOPPED) (demo_world throttled_api)
                = Done (Some ''RequestLimitExceeded'', fw1, w1)"
    by blast
  note start = failed_sequence_frame [where ping = "demo_ping\<lparr>requestStart := True\<rparr>",
      THEN conjunct1, THEN mp, OF a]
  from start [THEN conjunct1] now
  have a1: "fw1 = (demo_flywheel STOPPED)\<lparr>lastStarted := 1000\<rparr>" by simp
  have "status (demo_flywheel STOPPED) = STOPPED \<and>
        requestStart (demo_ping\<lparr>requestStart := True\<rparr>) \<and>
        \<not> is_closed (replyTo (demo_ping\<lparr>requestStart := True\<rparr>)) \<and>
        length (buf (replyTo (demo_ping\<lparr>requestStart := True\<rparr>)))
          < capacity (replyTo (demo_ping\<lparr>requestStart := True\<rparr>))"
    by (simp add: demo_defs)
  from start [THEN conjunct2, THEN conjunct2, THEN conjunct2, THEN conjunct2, THEN conjunct2,
      THEN conjunct2, THEN mp, OF this]
  have a2: "\<exists>ch. RecvPing (demo_ping\<lparr>requestStart := True\<rparr>) (demo_flywheel STOPPED)
                     (demo_world throttled_api) = Done (ch, fw1, w1) \<and>
                   map Status (buf ch) = [STOPPED] \<and>
                   map Err (buf ch) = [Some ''RequestLimitExceeded'']"
    by (simp add: demo_defs)
  from demo_Stop_refused obtain fw2 w2
    where b: "Stop (demo_flywheel STARTED) (demo_world throttled_api)
                = Done (Some ''RequestLimitExceeded'', fw2, w2)"
    by blast
  note stop = failed_sequence_frame [where ping = "demo_ping\<lparr>requestStop := True\<rparr>",
      THEN conjunct2, THEN mp, OF b]
  from stop [THEN conjunct1] now
  have b1: "fw2 = (demo_flywheel STARTED)\<lparr>lastStopped := 1000\<rparr>" by simp
  have "status (demo_flywheel STARTED) = STARTED \<and>
        \<not> noop (demo_ping\<lparr>requestStop := True\<rparr>) \<and>
        requestStop (demo_ping\<lparr>requestStop := True\<rparr>) \<and>
        \<not> is_closed (replyTo (demo_ping\<lparr>requestStop := True\<rparr>)) \<and>
        length (buf (replyTo (demo_ping\<lparr>requestStop := True\<rparr>)))
          < capacity (replyTo (demo_ping\<lparr>requestStop := True\<rparr>))"
    by (simp add: demo_defs)
  from stop [THEN conjunct2, THEN conjunct2, THEN conjunct2, THEN conjunct2, THEN conjunct2,
      THEN conjunct2, THEN mp, OF this]
  have b2: "\<exists>ch. RecvPing (demo_ping\<lparr>requestStop := True\<rparr>) (demo_flywheel STARTED)
                     (demo_world throttled_api) = Done (ch, fw2, w2) \<and>
                   map Status (buf ch) = [STARTED] \<and>
                   map Err (buf ch) = [Some ''RequestLimitExceeded'']"
    by (simp add: demo_defs)
  have A: "\<exists>fw' w'. Start (demo_flywheel STOPPED) (demo_world throttled_api)
                = Done (Some ''RequestLimitExceeded'', fw', w') \<and>
             fw' = (demo_flywheel STOPPED)\<lparr>lastStarted := 1000\<rparr> \<and>
             (\<exists>ch. RecvPing (demo_ping\<lparr>requestStart := True\<rparr>) (demo_flywheel STOPPED)
                     (demo_world throttled_api) = Done (ch, fw', w') \<and>
                   map Status (buf ch) = [STOPPED] \<and>
                   map Err (buf ch) = [Some ''RequestLimitExceeded''])"
    by (rule exI [of _ fw1], rule exI [of _ w1]) (intro conjI a a1 a2)
  have B: "\<exists>fw' w'. Stop (demo_flywheel STARTED) (demo_world throttled_api)
                = Done (Some ''RequestLimitExceeded'', fw', w') \<and>
             fw' = (demo_flywheel STARTED)\<lparr>lastStopped := 1000\<rparr> \<and>
             (\<exists>ch. RecvPing (demo_ping\<lparr>requestStop := True\<rparr>) (demo_flywheel STARTED)
                     (demo_world throttled_api) = Done (ch, fw', w') \<and>
                   map Status (buf ch) = [STARTED] \<and>
                   map Err (buf ch) = [Some ''RequestLimitExceeded''])"
    by (rule exI [of _ fw2], rule exI [of _ w2]) (intro conjI b b1 b2)
  from A B show ?thesis by (rule conjI)
qed

text \<open>
  C3, as amended. The Ping that ServeHTTP sends has the request-start flag set exactly
  when the first value that the query gives the key "flywheel" is "start", so only when
  the query holds that directive; its no-op flag and its stop flag are never set and it
  carries no explicit deadline, so every request handled while State is STARTED sets
  stopAt to the clock reading plus idleTimeout.
\<close>

theorem front_end_ping:
  assumes "ServeHTTP client r fw w = Done (sreq, out, fw', w')"
  shows "requestStart sreq =
           (\<exists>vs. map_of (url_Query (Req_URL r)) ''flywheel'' = Some (''start'' # vs)) \<and>
         (requestStart sreq \<longrightarrow>
            (''flywheel'', ''start'') \<in> set (ParseQuery (RawQuery (Req_URL r)))) \<and>
         \<not> noop sreq \<and> \<not> requestStop sreq \<and> setTimeout sreq = 0 \<and>
         replyTo sreq = make_chan 1 \<and>
         (status fw = STARTED \<longrightarrow>
            fw' = fw\<lparr>stopAt := time_Now w + idleTimeout fw\<rparr> \<and> w' = ticked w)"
proof -
  from assms obtain start pong
    where s: "(case map_of (url_Query (Req_URL r)) ''flywheel'' of
            None \<Rightarrow> Done False
          | Some [] \<Rightarrow> Panic
          | Some (v # vs) \<Rightarrow> Done (v = ''start'')) = Done start"
      and p: "SendPing start fw w = Done (sreq, pong, fw', w')"
    by (rule ServeHTTP_Done)
  from SendPing_Done [OF p]
  have sreq: "sreq = \<lparr>replyTo = make_chan 1, setTimeout = 0, requestStart = start,
                      requestStop = False, noop = False\<rparr>"
    by simp
  from s have start: "start = (\<exists>vs. map_of (url_Query (Req_URL r)) ''flywheel'' = Some (''start'' # vs))"
    by (auto split: option.splits list.splits)
  have present: "(''flywheel'', ''start'') \<in> set (ParseQuery (RawQuery (Req_URL r)))" if start
    using that start url_Query_first by blast
  have refresh: "fw' = fw\<lparr>stopAt := time_Now w + idleTimeout fw\<rparr> \<and> w' = ticked w"
    if "status fw = STARTED"
    using that p by (rule SendPing_started)
  from sreq start present refresh show ?thesis by simp
qed

text \<open>
  The claim as stated fails: the Ping sent for a request that only asks for the status
  has no no-op flag, and, processed while STARTED, it moves the idle deadline from 500
  to 1600; so does the Ping of a request with no directive at all.
\<close>

theorem front_end_ping_counterexample:
  "(case ServeHTTP demo_backend (demo_request ''flywheel=status'')
           (demo_flywheel STARTED) (demo_world healthy_api) of
      Done (sreq, out, fw', w') \<Rightarrow>
        \<not> noop sreq \<and> stopAt (demo_flywheel STARTED) = 500 \<and> stopAt fw' = 1600
    | Panic \<Rightarrow> False
    | Blocked \<Rightarrow> False) \<and>
   (case ServeHTTP demo_backend (demo_request [])
           (demo_flywheel STARTED) (demo_world healthy_api) of
      Done (sreq, out, fw', w') \<Rightarrow>
        \<not> noop sreq \<and> stopAt (demo_flywheel STARTED) = 500 \<and> stopAt fw' = 1600
    | Panic \<Rightarrow> False
    | Blocked \<Rightarrow> False)"
  by (simp add: serve_defs demo_defs states_differ time_Now_def ticked_def demo_queries)

theorem front_end_ping_witness:
  "(\<exists>sreq out fw' w'.
      ServeHTTP demo_backend (demo_request ''page=2&flywheel=start'')
        (demo_flywheel STOPPED) (demo_world healthy_api) = Done (sreq, out, fw', w') \<and>
      requestStart sreq \<and> \<not> noop sreq \<and> \<not> requestStop sreq \<and> setTimeout sreq = 0 \<and>
      (''flywheel'', ''start'') \<in> set (ParseQuery ''page=2&flywheel=start'')) \<and>
   (\<exists>sreq out fw' w'.
      ServeHTTP demo_backend (demo_request ''flywheel=status'')
        (demo_flywheel STARTED) (demo_world healthy_api) = Done (sreq, out, fw', w') \<and>
      \<not> requestStart sreq \<and> \<not> noop sreq \<and> status (demo_flywheel STARTED) = STARTED \<and>
      stopAt (demo_flywheel STARTED) = 500 \<and> stopAt fw' = 1600)"
proof -
  from demo_ServeHTTP_start obtain sreq out fw' w'
    where run: "ServeHTTP demo_backend (demo_request ''page=2&flywheel=start'')
       (demo_flywheel STOPPED) (demo_world healthy_api) = Done (sreq, out, fw', w')"
    by blast
  have q: "map_of (url_Query (Req_URL (demo_request ''page=2&flywheel=start''))) ''flywheel''
             = Some [''start'']"
    by (simp add: map_of_url_Query demo_request_def demo_queries)
  from front_end_ping [OF run] q
  have "requestStart sreq \<and> \<not> noop sreq \<and> \<not> requestStop sreq \<and> setTimeout sreq = 0 \<and>
      (''flywheel'', ''start'') \<in> set (ParseQuery ''page=2&flywheel=start'')"
    by (simp add: demo_request_def)
  with run have A: "\<exists>sreq out fw' w'.
      ServeHTTP demo_backend (demo_request ''page=2&flywheel=start'')
        (demo_flywheel STOPPED) (demo_world healthy_api) = Done (sreq, out, fw', w') \<and>
      requestStart sreq \<and> \<not> noop sreq \<and> \<not> requestStop sreq \<and> setTimeout sreq = 0 \<and>
      (''flywheel'', ''start'') \<in> set (ParseQuery ''page=2&flywheel=start'')"
    by blast
  from demo_ServeHTTP_status obtain sreq2 out2 fw2 w2
    where run2: "ServeHTTP demo_backend (demo_request ''flywheel=status'')
        (demo_flywheel STARTED) (demo_world healthy_api) = Done (sreq2, out2, fw2, w2)"
    by blast
  have q2: "map_of (url_Query (Req_URL (demo_request ''flywheel=status''))) ''flywheel''
              = Some [''status'']"
    by (simp add: map_of_url_Query demo_request_def demo_queries)
  have st: "status (demo_flywheel STARTED) = STARTED" "stopAt (demo_flywheel STARTED) = 500"
    "time_Now (demo_world healthy_api) + idleTimeout (demo_flywheel STARTED) = 1600"
    by (simp_all add: demo_defs time_Now_def)
  from front_end_ping [OF run2] q2 st
  have "\<not> requestStart sreq2 \<and> \<not> noop sreq2 \<and> status (demo_flywheel STARTED) = STARTED \<and>
      stopAt (demo_flywheel STARTED) = 500 \<and> stopAt fw2 = 1600"
    by simp
  with run2 have B: "\<exists>sreq out fw' w'.
      ServeHTTP demo_backend (demo_request ''flywheel=status'')
        (demo_flywheel STARTED) (demo_world healthy_api) = Done (sreq, out, fw', w') \<and>
      \<not> requestStart sreq \<and> \<not> noop sreq \<and> status (demo_flywheel STARTED) = STARTED \<and>
      stopAt (demo_flywheel STARTED) = 500 \<and> stopAt fw' = 1600"
    by blast
  from A B show ?thesis by (rule conjI)
qed

text \<open>
  C4. A request whose query holds the directive with a value that does not unescape,
  "flywheel=start%zz&page=2", handled while State is STARTED: the parsed query has no
  "flywheel" key, so the request is not redirected, and it is handed to the backend with
  its query as it came, the directive included. The same directive well formed is
  stripped on the redirect path, which writes the encoded query back; Proxy, called with
  a request that holds the directive, deletes the key from a parsed copy only and hands
  the query on as it came.
\<close>

theorem forwarded_with_directive:
  "(case ServeHTTP demo_backend (demo_request ''flywheel=start%zz&page=2'')
           (demo_flywheel STARTED) (demo_world healthy_api) of
      Done (sreq, (resp, fwd), fw', w') \<Rightarrow>
        \<not> requestStart sreq \<and> status fw' = STARTED \<and>
        resp = Relayed \<lparr>resp_StatusCode = 200, resp_Header = [], resp_Body = ''ok''\<rparr> \<and>
        map (\<lambda>r'. RawQuery (Req_URL r')) fwd = [''flywheel=start%zz&page=2'']
    | Panic \<Rightarrow> False
    | Blocked \<Rightarrow> False) \<and>
   (case ServeHTTP demo_backend (demo_request ''flywheel=start&page=2'')
           (demo_flywheel STARTED) (demo_world healthy_api) of
      Done (sreq, (resp, fwd), fw', w') \<Rightarrow>
        resp = Redirect \<lparr>Scheme = [], Host = [], Path = ''/index.html'', RawQuery = ''page=2''\<rparr> \<and>
        fwd = []
    | Panic \<Rightarrow> False
    | Blocked \<Rightarrow> False) \<and>
   map (\<lambda>r'. RawQuery (Req_URL r'))
     (snd (Proxy demo_backend (demo_flywheel STARTED) (demo_request ''flywheel=start&page=2'')))
     = [''flywheel=start&page=2'']"
  by (simp add: serve_defs demo_defs states_differ time_Now_def ticked_def demo_queries
        StatusString_def QueryEscape_def shouldEscape_def less_eq_char_def)

text \<open>
  C5. A health notification that carries the current State changes nothing. One that
  differs sets State to the notified value and leaves every other field but the
  deadline alone; the deadline is rearmed to the next clock reading plus idleTimeout
  when the notified value is STARTED and the deadline lies before the clock reading at
  the test, and is kept otherwise.
\<close>

theorem health_notification:
  "(s = status fw \<longrightarrow> Spin_health s fw w = (fw, w)) \<and>
   (s \<noteq> status fw \<longrightarrow>
      status (fst (Spin_health s fw w)) = s \<and>
      (s = STARTED \<and> stopAt fw < time_Now w \<longrightarrow>
         fst (Spin_health s fw w) =
           fw\<lparr>stopAt := time_Now (ticked w) + idleTimeout fw, status := s\<rparr>) \<and>
      (\<not> (s = STARTED \<and> stopAt fw < time_Now w) \<longrightarrow>
         fst (Spin_health s fw w) = fw\<lparr>status := s\<rparr> \<and>
         stopAt (fst (Spin_health s fw w)) = stopAt fw))"
  by (simp add: Spin_health_def)

theorem health_notification_witness:
  "Spin_health STARTED (demo_flywheel STARTED) (demo_world healthy_api)
     = (demo_flywheel STARTED, demo_world healthy_api) \<and>
   status (fst (Spin_health STARTED (demo_flywheel UNHEALTHY) (demo_world healthy_api))) = STARTED \<and>
   stopAt (demo_flywheel UNHEALTHY) = 500 \<and>
   time_Now (demo_world healthy_api) = 1000 \<and>
   stopAt (fst (Spin_health STARTED (demo_flywheel UNHEALTHY) (demo_world healthy_api))) = 1610 \<and>
   stopAt (fst (Spin_health STARTED ((demo_flywheel UNHEALTHY)\<lparr>stopAt := 5000\<rparr>)
                  (demo_world healthy_api))) = 5000 \<and>
   stopAt (fst (Spin_health UNHEALTHY (demo_flywheel STARTED) (demo_world healthy_api))) = 500"
  using health_notification [of STARTED "demo_flywheel STARTED" "demo_world healthy_api"]
    health_notification [of STARTED "demo_flywheel UNHEALTHY" "demo_world healthy_api"]
    health_notification [of STARTED "(demo_flywheel UNHEALTHY)\<lparr>stopAt := 5000\<rparr>"
      "demo_world healthy_api"]
    health_notification [of UNHEALTHY "demo_flywheel STARTED" "demo_world healthy_api"]
  by (simp add: demo_flywheel_def demo_world_def time_Now_def ticked_def states_distinct
        STARTED_def UNHEALTHY_def)

text \<open>
  C6. A start-flagged Request processed while State is STOPPED, on a reply channel that
  is open and has room: when the orchestrated Start succeeds, State becomes STARTING,
  ready becomes false and stopAt is the clock reading taken after the resource calls
  plus idleTimeout, which is after that reading when idleTimeout is positive, and the
  Reply reports STARTING without an error; when Start fails, State stays STOPPED and
  the Reply carries the error. Start returns one or the other whenever the resource
  client names a group for every describe call that succeeds.
\<close>

theorem stopped_start_request:
  assumes "status fw = STOPPED" and "requestStart ping"
    and "\<not> is_closed (replyTo ping)" and "length (buf (replyTo ping)) < capacity (replyTo ping)"
  shows "(Start fw w = Done (None, fw1, w1) \<longrightarrow>
            RecvPing ping fw w =
              Done ((replyTo ping)\<lparr>buf := buf (replyTo ping) @
                       [\<lparr>Status = STARTING, StatusName = StatusString STARTING, Err = None,
                         LastStarted = lastStarted fw1, LastStopped = lastStopped fw1,
                         StopAt = stopAt fw1\<rparr>],
                      is_closed := True\<rparr>, fw1, w1) \<and>
            status fw1 = STARTING \<and> \<not> ready fw1 \<and>
            stopAt fw1 = clock w (Suc (reads w)) + idleTimeout fw \<and>
            (0 < idleTimeout fw \<longrightarrow> clock w (Suc (reads w)) < stopAt fw1)) \<and>
         (Start fw w = Done (Some e, fw1, w1) \<longrightarrow>
            RecvPing ping fw w =
              Done ((replyTo ping)\<lparr>buf := buf (replyTo ping) @
                       [\<lparr>Status = STOPPED, StatusName = StatusString STOPPED, Err = Some e,
                         LastStarted = lastStarted fw1, LastStopped = lastStopped fw1,
                         StopAt = stopAt fw1\<rparr>],
                      is_closed := True\<rparr>, fw1, w1) \<and>
            status fw1 = STOPPED) \<and>
         (describes_a_group w \<longrightarrow> (\<exists>r fw' w'. Start fw w = Done (r, fw', w')))"
proof (intro conjI impI)
  assume ok: "Start fw w = Done (None, fw1, w1)"
  note fw1 = Start_success [OF ok]
  from fw1 show "status fw1 = STARTING" "\<not> ready fw1"
    "stopAt fw1 = clock w (Suc (reads w)) + idleTimeout fw" by simp_all
  then show "clock w (Suc (reads w)) < stopAt fw1" if "0 < idleTimeout fw"
    using that by simp
  from fw1 have st: "status fw1 = STARTING" by simp
  show "RecvPing ping fw w =
          Done ((replyTo ping)\<lparr>buf := buf (replyTo ping) @
                   [\<lparr>Status = STARTING, StatusName = StatusString STARTING, Err = None,
                     LastStarted = lastStarted fw1, LastStopped = lastStopped fw1,
                     StopAt = stopAt fw1\<rparr>],
                  is_closed := True\<rparr>, fw1, w1)"
    using assms ok st by (simp add: RecvPing_def reply_sent)
next
  assume bad: "Start fw w = Done (Some e, fw1, w1)"
  from Start_failure [OF bad] assms(1) show st: "status fw1 = STOPPED" by simp
  show "RecvPing ping fw w =
          Done ((replyTo ping)\<lparr>buf := buf (replyTo ping) @
                   [\<lparr>Status = STOPPED, StatusName = StatusString STOPPED, Err = Some e,
                     LastStarted = lastStarted fw1, LastStopped = lastStopped fw1,
                     StopAt = stopAt fw1\<rparr>],
                  is_closed := True\<rparr>, fw1, w1)"
    using assms bad st by (simp add: RecvPing_def reply_sent)
next
  assume "describes_a_group w"
  then show "\<exists>r fw' w'. Start fw w = Done (r, fw', w')" by (rule Start_returns)
qed

theorem stopped_start_request_witness:
  "(\<exists>fw1 w1 ch.
      Start (demo_flywheel STOPPED) (demo_world healthy_api) = Done (None, fw1, w1) \<and>
      RecvPing (demo_ping\<lparr>requestStart := True\<rparr>) (demo_flywheel STOPPED)
        (demo_world healthy_api) = Done (ch, fw1, w1) \<and>
      map Status (buf ch) = [STARTING] \<and> map Err (buf ch) = [None] \<and>
      status fw1 = STARTING \<and> \<not> ready fw1 \<and> stopAt fw1 = 1610) \<and>
   (\<exists>fw1 w1 ch.
      Start (demo_flywheel STOPPED) (demo_world throttled_api)
        = Done (Some ''RequestLimitExceeded'', fw1, w1) \<and>
      RecvPing (demo_ping\<lparr>requestStart := True\<rparr>) (demo_flywheel STOPPED)
        (demo_world throttled_api) = Done (ch, fw1, w1) \<and>
      map Status (buf ch) = [STOPPED] \<and> map Err (buf ch) = [Some ''RequestLimitExceeded''] \<and>
      status fw1 = STOPPED) \<and>
   describes_a_group (demo_world healthy_api) \<and>
   (\<exists>r fw' w'. Start (demo_flywheel STOPPED) (demo_world healthy_api) = Done (r, fw', w'))"
proof -
  have pre: "status (demo_flywheel STOPPED) = STOPPED"
    "requestStart (demo_ping\<lparr>requestStart := True\<rparr>)"
    "\<not> is_closed (replyTo (demo_ping\<lparr>requestStart := True\<rparr>))"
    "length (buf (replyTo (demo_ping\<lparr>requestStart := True\<rparr>)))
       < capacity (replyTo (demo_ping\<lparr>requestStart := True\<rparr>))"
    by (simp_all add: demo_defs)
  from demo_Start_healthy obtain fw1 w1
    where ok: "Start (demo_flywheel STOPPED) (demo_world healthy_api) = Done (None, fw1, w1)"
    by blast
  from demo_Start_throttled obtain fw2 w2
    where bad: "Start (demo_flywheel STOPPED) (demo_world throttled_api)
                  = Done (Some ''RequestLimitExceeded'', fw2, w2)"
    by blast
  have a: "\<exists>ch. RecvPing (demo_ping\<lparr>requestStart := True\<rparr>) (demo_flywheel STOPPED)
        (demo_world healthy_api) = Done (ch, fw1, w1) \<and>
      map Status (buf ch) = [STARTING] \<and> map Err (buf ch) = [None] \<and>
      status fw1 = STARTING \<and> \<not> ready fw1 \<and> stopAt fw1 = 1610"
    using stopped_start_request [OF pre, where w = "demo_world healthy_api"
        and ?fw1.0 = fw1 and ?w1.0 = w1] ok
    by (simp add: demo_defs)
  have b: "\<exists>ch. RecvPing (demo_ping\<lparr>requestStart := True\<rparr>) (demo_flywheel STOPPED)
        (demo_world throttled_api) = Done (ch, fw2, w2) \<and>
      map Status (buf ch) = [STOPPED] \<and> map Err (buf ch) = [Some ''RequestLimitExceeded''] \<and>
      status fw2 = STOPPED"
    using stopped_start_request [OF pre, where w = "demo_world throttled_api"
        and ?fw1.0 = fw2 and ?w1.0 = w2 and e = "''RequestLimitExceeded''"] bad
    by (simp add: demo_defs)
  have c: "\<exists>r fw' w'. Start (demo_flywheel STOPPED) (demo_world healthy_api) = Done (r, fw', w')"
    using stopped_start_request [OF pre, where w = "demo_world healthy_api",
        THEN conjunct2, THEN conjunct2, THEN mp, OF demo_describes] .
  have A: "\<exists>fw1 w1 ch.
      Start (demo_flywheel STOPPED) (demo_world healthy_api) = Done (None, fw1, w1) \<and>
      RecvPing (demo_ping\<lparr>requestStart := True\<rparr>) (demo_flywheel STOPPED)
        (demo_world healthy_api) = Done (ch, fw1, w1) \<and>
      map Status (buf ch) = [STARTING] \<and> map Err (buf ch) = [None] \<and>
      status fw1 = STARTING \<and> \<not> ready fw1 \<and> stopAt fw1 = 1610"
    using ok a by metis
  have B: "\<exists>fw1 w1 ch.
      Start (demo_flywheel STOPPED) (demo_world throttled_api)
        = Done (Some ''RequestLimitExceeded'', fw1, w1) \<and>
      RecvPing (demo_ping\<lparr>requestStart := True\<rparr>) (demo_flywheel STOPPED)
        (demo_world throttled_api) = Done (ch, fw1, w1) \<and>
      map Status (buf ch) = [STOPPED] \<and> map Err (buf ch) = [Some ''RequestLimitExceeded''] \<and>
      status fw1 = STOPPED"
    using bad b by metis
  from A B demo_describes c show ?thesis by (intro conjI)
qed

text \<open>
  C7, as amended. While State is STARTED, on a reply channel that is open and has room, a
  plain ping (not no-op, not stop, no explicit deadline) sets stopAt to the clock reading
  plus idleTimeout, whatever the previous deadline was, and changes no other field; a
  no-op-flagged ping changes nothing, the deadline included.
\<close>

theorem started_ping_deadline:
  assumes "status fw = STARTED"
    and "\<not> is_closed (replyTo ping)" and "length (buf (replyTo ping)) < capacity (replyTo ping)"
  shows "(\<not> noop ping \<and> \<not> requestStop ping \<and> setTimeout ping = 0 \<longrightarrow>
            (\<exists>ch. RecvPing ping fw w =
                     Done (ch, fw\<lparr>stopAt := time_Now w + idleTimeout fw\<rparr>, ticked w))) \<and>
         (noop ping \<longrightarrow> (\<exists>ch. RecvPing ping fw w = Done (ch, fw, w)))"
  using assms by (simp add: RecvPing_def reply_sent states_differ)

text \<open>
  The claim as stated fails: after a ping with an explicit deadline of 100000 has moved
  stopAt to 101000, a plain ping sets stopAt to 1610, which is earlier.
\<close>

theorem started_ping_deadline_counterexample:
  "(case RecvPing (demo_ping\<lparr>setTimeout := 100000\<rparr>) (demo_flywheel STARTED)
           (demo_world healthy_api) of
      Done (ch1, fw1, w1) \<Rightarrow>
        (case RecvPing demo_ping fw1 w1 of
           Done (ch2, fw2, w2) \<Rightarrow>
             status fw1 = STARTED \<and> stopAt fw1 = 101000 \<and> time_Now w1 = 1010 \<and>
             idleTimeout fw1 = 600 \<and> stopAt fw2 = 1610 \<and> \<not> stopAt fw1 < stopAt fw2
         | Panic \<Rightarrow> False
         | Blocked \<Rightarrow> False)
    | Panic \<Rightarrow> False
    | Blocked \<Rightarrow> False)"
  by (simp add: RecvPing_def demo_defs chan_send_def chan_close_def time_Now_def ticked_def
        states_differ)

theorem started_ping_deadline_witness:
  "(\<exists>ch. RecvPing demo_ping (demo_flywheel STARTED) (demo_world healthy_api) =
           Done (ch, (demo_flywheel STARTED)\<lparr>stopAt := 1600\<rparr>, ticked (demo_world healthy_api))) \<and>
   (\<exists>ch. RecvPing (demo_ping\<lparr>noop := True\<rparr>) (demo_flywheel STARTED) (demo_world healthy_api) =
           Done (ch, demo_flywheel STARTED, demo_world healthy_api))"
proof -
  have pre: "status (demo_flywheel STARTED) = STARTED"
    "\<not> is_closed (replyTo demo_ping)" "length (buf (replyTo demo_ping)) < capacity (replyTo demo_ping)"
    by (simp_all add: demo_defs)
  have pre': "\<not> is_closed (replyTo (demo_ping\<lparr>noop := True\<rparr>))"
    "length (buf (replyTo (demo_ping\<lparr>noop := True\<rparr>))) < capacity (replyTo (demo_ping\<lparr>noop := True\<rparr>))"
    by (simp_all add: demo_defs)
  have plain: "\<not> noop demo_ping \<and> \<not> requestStop demo_ping \<and> setTimeout demo_ping = 0"
    by (simp add: demo_defs)
  have now: "time_Now (demo_world healthy_api) + idleTimeout (demo_flywheel STARTED) = 1600"
    by (simp add: demo_defs time_Now_def)
  from started_ping_deadline [OF pre, of "demo_world healthy_api"] plain now
  have A: "\<exists>ch. RecvPing demo_ping (demo_flywheel STARTED) (demo_world healthy_api) =
           Done (ch, (demo_flywheel STARTED)\<lparr>stopAt := 1600\<rparr>, ticked (demo_world healthy_api))"
    by simp
  from started_ping_deadline [OF pre(1) pre', of "demo_world healthy_api"]
  have B: "\<exists>ch. RecvPing (demo_ping\<lparr>noop := True\<rparr>) (demo_flywheel STARTED) (demo_world healthy_api) =
           Done (ch, demo_flywheel STARTED, demo_world healthy_api)"
    by simp
  from A B show ?thesis by (rule conjI)
qed

text \<open>
  C8. A tick while State is STARTED: when the clock reading is not after stopAt nothing
  changes; when it is after stopAt, the orchestrated Stop runs once: whatever it returns,
  State is set to STOPPING on the flywheel Stop leaves, the world is the one Stop leaves,
  and the calls made during the tick are one chain that ends with Stop's result. Stop returns whenever the resource
  client names a group for every describe call that succeeds.
\<close>

theorem tick_while_started:
  assumes "status fw = STARTED"
  shows "(time_Now w \<le> stopAt fw \<longrightarrow> Poll fw w = Done (fw, ticked w)) \<and>
         (stopAt fw < time_Now w \<longrightarrow>
            (Stop fw (ticked w) = Done (r, fw1, w1) \<longrightarrow>
               Poll fw w = Done (fw1\<lparr>status := STOPPING\<rparr>, w1) \<and>
               chain_result r (results_of (respond w) (calls w) (made w w1))) \<and>
            (describes_a_group w \<longrightarrow>
               (\<exists>r' fw' w'. Stop fw (ticked w) = Done (r', fw', w') \<and>
                             Poll fw w = Done (fw'\<lparr>status := STOPPING\<rparr>, w'))))"
proof (intro conjI impI)
  assume "time_Now w \<le> stopAt fw"
  with assms show "Poll fw w = Done (fw, ticked w)" by (simp add: Poll_def)
next
  assume late: "stopAt fw < time_Now w" and stop: "Stop fw (ticked w) = Done (r, fw1, w1)"
  with assms show "Poll fw w = Done (fw1\<lparr>status := STOPPING\<rparr>, w1)" by (simp add: Poll_def)
  from Stop_Done [OF stop] have "step_trace (ticked (ticked w)) r w1" by blast
  then show "chain_result r (results_of (respond w) (calls w) (made w w1))"
    by (simp add: step_trace_def made_def)
next
  assume late: "stopAt fw < time_Now w" and "describes_a_group w"
  then have "describes_a_group (ticked w)" by simp
  from Stop_returns [OF this] obtain r' fw' w' where "Stop fw (ticked w) = Done (r', fw', w')"
    by blast
  with assms late show "\<exists>r' fw' w'. Stop fw (ticked w) = Done (r', fw', w') \<and>
                             Poll fw w = Done (fw'\<lparr>status := STOPPING\<rparr>, w')"
    by (simp add: Poll_def)
qed

theorem tick_while_started_witness:
  "Poll ((demo_flywheel STARTED)\<lparr>stopAt := 5000\<rparr>) (demo_world healthy_api)
     = Done ((demo_flywheel STARTED)\<lparr>stopAt := 5000\<rparr>, ticked (demo_world healthy_api)) \<and>
   (\<exists>fw1 w1. Stop (demo_flywheel STARTED) (ticked (demo_world healthy_api)) = Done (None, fw1, w1) \<and>
      Poll (demo_flywheel STARTED) (demo_world healthy_api) = Done (fw1\<lparr>status := STOPPING\<rparr>, w1)) \<and>
   (\<exists>fw1 w1. Stop (demo_flywheel STARTED) (ticked (demo_world throttled_api))
        = Done (Some ''RequestLimitExceeded'', fw1, w1) \<and>
      Poll (demo_flywheel STARTED) (demo_world throttled_api) = Done (fw1\<lparr>status := STOPPING\<rparr>, w1)) \<and>
   describes_a_group (demo_world healthy_api) \<and>
   (\<exists>r' fw' w'. Stop (demo_flywheel STARTED) (ticked (demo_world healthy_api)) = Done (r', fw', w') \<and>
      Poll (demo_flywheel STARTED) (demo_world healthy_api) = Done (fw'\<lparr>status := STOPPING\<rparr>, w'))"
proof -
  have st: "status (demo_flywheel STARTED) = STARTED"
    "status ((demo_flywheel STARTED)\<lparr>stopAt := 5000\<rparr>) = STARTED"
    by (simp_all add: demo_defs)
  have early: "time_Now (demo_world healthy_api) \<le> stopAt ((demo_flywheel STARTED)\<lparr>stopAt := 5000\<rparr>)"
    by (simp add: demo_defs time_Now_def)
  have late: "stopAt (demo_flywheel STARTED) < time_Now (demo_world healthy_api)"
    "stopAt (demo_flywheel STARTED) < time_Now (demo_world throttled_api)"
    by (simp_all add: demo_defs time_Now_def)
  from tick_while_started [OF st(2), of "demo_world healthy_api"] early
  have A: "Poll ((demo_flywheel STARTED)\<lparr>stopAt := 5000\<rparr>) (demo_world healthy_api)
     = Done ((demo_flywheel STARTED)\<lparr>stopAt := 5000\<rparr>, ticked (demo_world healthy_api))"
    by blast
  from demo_Stop_healthy obtain fw1 w1
    where ok: "Stop (demo_flywheel STARTED) (ticked (demo_world healthy_api)) = Done (None, fw1, w1)"
    by blast
  from tick_while_started [OF st(1), of "demo_world healthy_api" None fw1 w1] late ok
  have "Poll (demo_flywheel STARTED) (demo_world healthy_api) = Done (fw1\<lparr>status := STOPPING\<rparr>, w1)"
    by blast
  with ok have B: "\<exists>fw1 w1. Stop (demo_flywheel STARTED) (ticked (demo_world healthy_api)) = Done (None, fw1, w1) \<and>
      Poll (demo_flywheel STARTED) (demo_world healthy_api) = Done (fw1\<lparr>status := STOPPING\<rparr>, w1)"
    by blast
  from demo_Stop_throttled obtain fw2 w2
    where bad: "Stop (demo_flywheel STARTED) (ticked (demo_world throttled_api))
                  = Done (Some ''RequestLimitExceeded'', fw2, w2)"
    by blast
  from tick_while_started [OF st(1), of "demo_world throttled_api" "Some ''RequestLimitExceeded''" fw2 w2]
    late bad
  have "Poll (demo_flywheel STARTED) (demo_world throttled_api) = Done (fw2\<lparr>status := STOPPING\<rparr>, w2)"
    by blast
  with bad have C: "\<exists>fw1 w1. Stop (demo_flywheel STARTED) (ticked (demo_world throttled_api))
        = Done (Some ''RequestLimitExceeded'', fw1, w1) \<and>
      Poll (demo_flywheel STARTED) (demo_world throttled_api) = Done (fw1\<lparr>status := STOPPING\<rparr>, w1)"
    by blast
  from tick_while_started [OF st(1), of "demo_world healthy_api", THEN conjunct2, THEN mp,
      OF late(1), THEN conjunct2, THEN mp, OF demo_describes]
  have D: "\<exists>r' fw' w'. Stop (demo_flywheel STARTED) (ticked (demo_world healthy_api)) = Done (r', fw', w') \<and>
      Poll (demo_flywheel STARTED) (demo_world healthy_api) = Done (fw'\<lparr>status := STOPPING\<rparr>, w')" .
  from A B C demo_describes D show ?thesis by (intro conjI)
qed

text \<open>
  C9. A start-flagged Request processed while State is STOPPED, on a fresh reply channel
  of capacity 1, with a resource client that answers the describe call for the group
  "web" with no error and no group: the index into the empty list of groups panics
  inside Start, and RecvPing ends in the panic with no Pong sent. The same happens to a
  stop-flagged Request processed while STARTED, inside Stop.
\<close>

theorem request_unanswered_on_panic:
  "status (demo_flywheel STOPPED) = STOPPED \<and>
   replyTo (demo_ping\<lparr>requestStart := True\<rparr>) = \<lparr>buf = [], capacity = 1, is_closed = False\<rparr> \<and>
   as_Stop (AutoScaling (config (demo_flywheel STOPPED))) = [''web''] \<and>
   respond (demo_world groupless_api)
     [EC2_StartInstances [''i-0a''], AS_UpdateAutoScalingGroup ''batch'' 2 2]
     (AS_DescribeAutoScalingGroups [''web'']) = ([], None) \<and>
   Start (demo_flywheel STOPPED) (demo_world groupless_api) = Panic \<and>
   RecvPing (demo_ping\<lparr>requestStart := True\<rparr>) (demo_flywheel STOPPED) (demo_world groupless_api)
     = Panic \<and>
   Stop (demo_flywheel STARTED) (demo_world groupless_api) = Panic \<and>
   RecvPing (demo_ping\<lparr>requestStop := True\<rparr>) (demo_flywheel STARTED) (demo_world groupless_api)
     = Panic"
  by (simp add: RecvPing_def demo_defs run_defs states_differ)

text \<open>
  C10. ReadStatusFile changes no field but status, lastStarted and lastStopped, whatever
  the file holds: stopAt and ready are as before. Read into the flywheel that New
  builds, stopAt is the clock reading New took and ready is false; when the clock never
  runs backwards, that deadline is not after any later clock reading.
\<close>

theorem snapshot_read_frame:
  "(\<exists>s a b. ReadStatusFile codec p fs fw = fw\<lparr>status := s, lastStarted := a, lastStopped := b\<rparr>) \<and>
   stopAt (ReadStatusFile codec p fs fw) = stopAt fw \<and>
   ready (ReadStatusFile codec p fs fw) = ready fw \<and>
   stopAt (ReadStatusFile codec p fs (fst (New cfg w))) = time_Now w \<and>
   \<not> ready (ReadStatusFile codec p fs (fst (New cfg w))) \<and>
   (mono (clock w) \<longrightarrow>
      (\<forall>n. reads w \<le> n \<longrightarrow> stopAt (ReadStatusFile codec p fs (fst (New cfg w))) \<le> clock w n))"
proof -
  have frame: "\<exists>s a b. ReadStatusFile codec p fs fw' = fw'\<lparr>status := s, lastStarted := a, lastStopped := b\<rparr>"
    for fw'
  proof -
    have "fw' = fw'\<lparr>status := status fw', lastStarted := lastStarted fw', lastStopped := lastStopped fw'\<rparr>"
      by simp
    with ReadStatusFile_cases [of codec p fs fw'] show ?thesis by metis
  qed
  have keep: "stopAt (ReadStatusFile codec p fs fw') = stopAt fw' \<and>
              ready (ReadStatusFile codec p fs fw') = ready fw'" for fw'
  proof -
    from frame [of fw'] obtain s a b
      where "ReadStatusFile codec p fs fw' = fw'\<lparr>status := s, lastStarted := a, lastStopped := b\<rparr>"
      by blast
    then show ?thesis by simp
  qed
  have new: "stopAt (fst (New cfg w)) = time_Now w" "\<not> ready (fst (New cfg w))"
    by (simp_all add: New_def)
  have later: "stopAt (ReadStatusFile codec p fs (fst (New cfg w))) \<le> clock w n"
    if "mono (clock w)" and "reads w \<le> n" for n
    using keep [of "fst (New cfg w)"] new monoD [OF that] by (simp add: time_Now_def)
  from frame [of fw] keep [of fw] keep [of "fst (New cfg w)"] new later show ?thesis
    by simp
qed

theorem snapshot_read_frame_witness:
  "lastStarted (ReadStatusFile demo_codec ''flywheel.status''
       (WriteStatusFile demo_codec (demo_flywheel STARTED) ''flywheel.status'' demo_fs)
       (fst (New demo_config (demo_world healthy_api)))) = 100 \<and>
   stopAt (ReadStatusFile demo_codec ''flywheel.status''
       (WriteStatusFile demo_codec (demo_flywheel STARTED) ''flywheel.status'' demo_fs)
       (fst (New demo_config (demo_world healthy_api)))) = 1000 \<and>
   \<not> ready (ReadStatusFile demo_codec ''flywheel.status''
       (WriteStatusFile demo_codec (demo_flywheel STARTED) ''flywheel.status'' demo_fs)
       (fst (New demo_config (demo_world healthy_api)))) \<and>
   mono (clock (demo_world healthy_api)) \<and>
   stopAt (ReadStatusFile demo_codec ''flywheel.status''
       (WriteStatusFile demo_codec (demo_flywheel STARTED) ''flywheel.status'' demo_fs)
       (fst (New demo_config (demo_world healthy_api)))) \<le> clock (demo_world healthy_api) 5"
proof -
  have m: "mono (clock (demo_world healthy_api))"
    by (simp add: mono_def demo_world_def)
  have r: "reads (demo_world healthy_api) \<le> 5" "time_Now (demo_world healthy_api) = 1000"
    by (simp_all add: demo_world_def time_Now_def)
  let ?fw = "ReadStatusFile demo_codec ''flywheel.status''
       (WriteStatusFile demo_codec (demo_flywheel STARTED) ''flywheel.status'' demo_fs)
       (fst (New demo_config (demo_world healthy_api)))"
  note frame = snapshot_read_frame [of demo_codec "''flywheel.status''"
      "WriteStatusFile demo_codec (demo_flywheel STARTED) ''flywheel.status'' demo_fs"
      "fst (New demo_config (demo_world healthy_api))" demo_config "demo_world healthy_api"]
  note tail = frame [THEN conjunct2, THEN conjunct2, THEN conjunct2]
  from tail [THEN conjunct1] r(2) have a: "stopAt ?fw = 1000" by simp
  note a' = tail [THEN conjunct2, THEN conjunct1]
  from tail [THEN conjunct2, THEN conjunct2, THEN mp, OF m, THEN spec, THEN mp, OF r(1)]
  have b: "stopAt ?fw \<le> clock (demo_world healthy_api) 5" .
  have c: "lastStarted ?fw = 100" by (simp add: demo_snapshot_read)
  from a a' b c m show ?thesis by simp
qed

end
